theory Spec2Isabelle
  imports
    Complex_Main
    "HOL-Library.Char_ord"
    "HOL-Library.List_Lexorder"
    "HOL-Library.Product_Lexorder"
    "HOL-Library.Multiset"
begin

section \<open>Python values used by the evaluator\<close>

text \<open>
  A Python \<^verbatim>\<open>str\<close> is a sequence of Unicode code points, so it is modelled as a list
  of naturals: the Chinese markers of \<^verbatim>\<open>_check_format\<close> are single elements, as they
  are for Python's \<^verbatim>\<open>in\<close>, \<^verbatim>\<open>strip\<close> and \<^verbatim>\<open>re\<close>. \<open>str\<close> turns an ASCII literal into
  such a sequence. Python floats are idealised as exact rationals: rounding, overflow to
  \<^verbatim>\<open>inf\<close> and \<^verbatim>\<open>nan\<close> are outside the model.
\<close>

type_synonym pystr = "nat list"

definition str :: "string \<Rightarrow> pystr" where
  "str s = map of_char s"

text \<open>The characters removed by \<^verbatim>\<open>str.strip()\<close> and matched by \<^verbatim>\<open>\s\<close> in a str pattern.\<close>

definition isspace :: "nat \<Rightarrow> bool" where
  "isspace c =
     ((0x09 \<le> c \<and> c \<le> 0x0D) \<or> (0x1C \<le> c \<and> c \<le> 0x20) \<or> c = 0x85 \<or> c = 0xA0
      \<or> c = 0x1680 \<or> (0x2000 \<le> c \<and> c \<le> 0x200A) \<or> c = 0x2028 \<or> c = 0x2029
      \<or> c = 0x202F \<or> c = 0x205F \<or> c = 0x3000)"

text \<open>\<^verbatim>\<open>len(s.strip()) == 0\<close>: every character of \<open>s\<close> is whitespace.\<close>

definition blank :: "pystr \<Rightarrow> bool" where
  "blank s = list_all isspace s"

fun startswith :: "pystr \<Rightarrow> pystr \<Rightarrow> bool" where
  "startswith s [] = True"
| "startswith [] (p # ps) = False"
| "startswith (c # cs) (p # ps) = (c = p \<and> startswith cs ps)"

text \<open>\<^verbatim>\<open>sub in s\<close> for two strings.\<close>

fun contains :: "pystr \<Rightarrow> pystr \<Rightarrow> bool" where
  "contains [] sub = (sub = [])"
| "contains (c # cs) sub = (startswith (c # cs) sub \<or> contains cs sub)"

text \<open>
  The exceptions the modelled code can meet. \<open>OtherException\<close> stands for anything else a
  library call may raise that is an \<^verbatim>\<open>Exception\<close>.
\<close>

datatype py_exception =
  ZeroDivisionError | JSONDecodeError | TypeError | AttributeError | OtherException

text \<open>What \<^verbatim>\<open>json.loads\<close> can return.\<close>

datatype json =
  JNull | JBool bool | JInt int | JFloat rat | JStr pystr
  | JArr "json list" | JObj "(pystr \<times> json) list"

text \<open>
  One call of \<^verbatim>\<open>llm_interface.invoke\<close> either raises (carrying \<^verbatim>\<open>str(e)\<close>) or returns
  \<^verbatim>\<open>None\<close> or a string.
\<close>

datatype reply = Raises pystr | Returns "pystr option"

section \<open>\<^verbatim>\<open>_check_format\<close>\<close>

definition check_format :: "pystr \<Rightarrow> bool" where
  "check_format response =
     (let has_code = (contains response [0x60, 0x60, 0x60] \<or> contains response (str ''def '')
                      \<or> contains response (str ''return''));
          has_explanation = (contains response [0x9519, 0x8BEF] \<or> contains response (str ''Error'')
                      \<or> contains response [0x95EE, 0x9898] \<or> contains response [0x4FEE, 0x6B63])
      in has_code \<and> has_explanation)"

section \<open>The regular expressions\<close>

text \<open>
  \<^verbatim>\<open>re.search(r'\{[^}]+\}', eval_result, re.DOTALL)\<close>. At a position the pattern matches
  when the character is an opening brace, at least one character other than a closing brace
  follows, and the greedy run of such characters ends at a closing brace (a run that reaches
  the end of the text cannot be shortened into a match, since the character after a shorter
  run is not a closing brace). \<open>re_search_braces\<close> returns \<^verbatim>\<open>json_match.group()\<close> of the
  leftmost match.
\<close>

definition brace_match_at :: "pystr \<Rightarrow> pystr option" where
  "brace_match_at s =
     (case s of
        [] \<Rightarrow> None
      | c # rest \<Rightarrow>
          if c \<noteq> 0x7B then None
          else let body = takeWhile (\<lambda>x. x \<noteq> 0x7D) rest;
                   after = dropWhile (\<lambda>x. x \<noteq> 0x7D) rest
               in if body = [] \<or> after = [] then None else Some (c # body @ [0x7D]))"

fun re_search_braces :: "pystr \<Rightarrow> pystr option" where
  "re_search_braces [] = None"
| "re_search_braces (c # cs) =
     (case brace_match_at (c # cs) of Some m \<Rightarrow> Some m | None \<Rightarrow> re_search_braces cs)"

text \<open>
  \<^verbatim>\<open>re.search(r'accuracy["\s:]+(\d+\.?\d*)', text, re.IGNORECASE)\<close> and its two siblings.
  Under \<^verbatim>\<open>re.IGNORECASE\<close> a lower-case ASCII letter of the pattern matches itself and its
  capital, and \<^verbatim>\<open>i\<close> also matches U+0130 and U+0131. \<^verbatim>\<open>\d\<close> matches every Unicode
  decimal digit, and \<^verbatim>\<open>float\<close> reads them all: the digits come in runs of ten, from
  the zero to the nine of a script, and \<open>decimal_zeros\<close> lists the zeros (Unicode 14.0,
  the table of Python 3.11).
\<close>

definition decimal_zeros :: "nat list" where
  "decimal_zeros =
     [0x30, 0x660, 0x6F0, 0x7C0, 0x966, 0x9E6, 0xA66, 0xAE6,
      0xB66, 0xBE6, 0xC66, 0xCE6, 0xD66, 0xDE6, 0xE50, 0xED0,
      0xF20, 0x1040, 0x1090, 0x17E0, 0x1810, 0x1946, 0x19D0, 0x1A80,
      0x1A90, 0x1B50, 0x1BB0, 0x1C40, 0x1C50, 0xA620, 0xA8D0, 0xA900,
      0xA9D0, 0xA9F0, 0xAA50, 0xABF0, 0xFF10, 0x104A0, 0x10D30, 0x11066,
      0x110F0, 0x11136, 0x111D0, 0x112F0, 0x11450, 0x114D0, 0x11650, 0x116C0,
      0x11730, 0x118E0, 0x11950, 0x11C50, 0x11D50, 0x11DA0, 0x16A60, 0x16AC0,
      0x16B50, 0x1D7CE, 0x1D7D8, 0x1D7E2, 0x1D7EC, 0x1D7F6, 0x1E140, 0x1E2F0,
      0x1E950, 0x1FBF0]"

definition ci_eq :: "nat \<Rightarrow> nat \<Rightarrow> bool" where
  "ci_eq p c = (c = p \<or> c + 32 = p \<or> (p = 0x69 \<and> (c = 0x130 \<or> c = 0x131)))"

fun ci_startswith :: "pystr \<Rightarrow> pystr \<Rightarrow> pystr option" where
  "ci_startswith s [] = Some s"
| "ci_startswith [] (p # ps) = None"
| "ci_startswith (c # cs) (p # ps) = (if ci_eq p c then ci_startswith cs ps else None)"

definition is_sep :: "nat \<Rightarrow> bool" where
  "is_sep c = (c = 0x22 \<or> isspace c \<or> c = 0x3A)"

definition is_digit :: "nat \<Rightarrow> bool" where
  "is_digit c = list_ex (\<lambda>z. z \<le> c \<and> c < z + 10) decimal_zeros"

definition digit_value :: "nat \<Rightarrow> nat" where
  "digit_value c =
     (case find (\<lambda>z. z \<le> c \<and> c < z + 10) decimal_zeros of Some z \<Rightarrow> c - z | None \<Rightarrow> 0)"

text \<open>\<^verbatim>\<open>(\d+\.?\d*)\<close> at the start of \<open>s\<close>: the text of the group.\<close>

definition number_match :: "pystr \<Rightarrow> pystr option" where
  "number_match s =
     (let d1 = takeWhile is_digit s; r1 = dropWhile is_digit s
      in if d1 = [] then None
         else (case r1 of
                 [] \<Rightarrow> Some d1
               | c # r2 \<Rightarrow> if c = 0x2E then Some (d1 @ [0x2E] @ takeWhile is_digit r2)
                            else Some d1))"

definition metric_match_at :: "pystr \<Rightarrow> pystr \<Rightarrow> pystr option" where
  "metric_match_at name s =
     (case ci_startswith s name of
        None \<Rightarrow> None
      | Some r \<Rightarrow> if takeWhile is_sep r = [] then None
                  else number_match (dropWhile is_sep r))"

fun re_search_metric :: "pystr \<Rightarrow> pystr \<Rightarrow> pystr option" where
  "re_search_metric name [] = None"
| "re_search_metric name (c # cs) =
     (case metric_match_at name (c # cs) of
        Some g \<Rightarrow> Some g
      | None \<Rightarrow> re_search_metric name cs)"

text \<open>\<^verbatim>\<open>float\<close> on the text of such a group: digits, then possibly a dot and digits.\<close>

definition int_of_digits :: "pystr \<Rightarrow> nat" where
  "int_of_digits ds = foldl (\<lambda>a c. 10 * a + digit_value c) 0 ds"

definition py_float :: "pystr \<Rightarrow> rat" where
  "py_float s =
     (let ip = takeWhile is_digit s; fp = drop (length ip + 1) s
      in of_nat (int_of_digits ip) + of_nat (int_of_digits fp) / 10 ^ length fp)"

section \<open>\<^verbatim>\<open>_extract_metrics_manually\<close>\<close>

definition metric_or_default :: "pystr \<Rightarrow> pystr \<Rightarrow> json" where
  "metric_or_default name txt =
     (case re_search_metric name txt of Some g \<Rightarrow> JFloat (py_float g) | None \<Rightarrow> JFloat (1/2))"

definition extract_metrics_manually :: "pystr \<Rightarrow> json" where
  "extract_metrics_manually txt =
     JObj [(str ''accuracy'', metric_or_default (str ''accuracy'') txt),
           (str ''guidance'', metric_or_default (str ''guidance'') txt),
           (str ''clarity'', metric_or_default (str ''clarity'') txt)]"

section \<open>\<^verbatim>\<open>_evaluate_single_response\<close>\<close>

text \<open>
  The per-sample metrics dictionary the judge returns. Its \<^verbatim>\<open>failure_reason\<close> is a value
  of the decoded object, a fixed string, or \<^verbatim>\<open>str(e)\<close> of a caught exception.
\<close>

datatype reason = Value json | ErrorText py_exception

record sample_metrics =
  format_correct :: bool
  educational_value :: rat
  failure_reason :: reason

text \<open>
  \<^verbatim>\<open>json.loads\<close> is library code: the judge takes it as the parameter \<open>loads\<close>, which
  returns the decoded value or the exception raised. The grading prompt is built from the
  code, the labels, the response and the expected outcome and sent to the grading model;
  the model's reply is an input of the judge here, so the theorems hold whatever the grading
  model does with the prompt.
\<close>

definition parse_metrics :: "(pystr \<Rightarrow> py_exception + json) \<Rightarrow> pystr \<Rightarrow> py_exception + json" where
  "parse_metrics loads eval_result =
     (case re_search_braces eval_result of
        Some json_text \<Rightarrow>
          (case loads json_text of
             Inr metrics \<Rightarrow> Inr metrics
           | Inl e \<Rightarrow> if e = JSONDecodeError then Inr (extract_metrics_manually eval_result)
                      else Inl e)
      | None \<Rightarrow> Inr (extract_metrics_manually eval_result))"

text \<open>\<^verbatim>\<open>metrics.get(key, default)\<close>; a value that is not a dictionary has no \<^verbatim>\<open>get\<close>.\<close>

definition dict_get :: "json \<Rightarrow> pystr \<Rightarrow> json \<Rightarrow> py_exception + json" where
  "dict_get metrics key dflt =
     (case metrics of
        JObj kvs \<Rightarrow> Inr (case map_of kvs key of Some v \<Rightarrow> v | None \<Rightarrow> dflt)
      | _ \<Rightarrow> Inl AttributeError)"

text \<open>The value of a Python number; \<^verbatim>\<open>True\<close> and \<^verbatim>\<open>False\<close> are the integers 1 and 0.\<close>

fun number_of :: "json \<Rightarrow> rat option" where
  "number_of (JInt i) = Some (of_int i)"
| "number_of (JFloat q) = Some q"
| "number_of (JBool b) = Some (if b then 1 else 0)"
| "number_of _ = None"

text \<open>\<^verbatim>\<open>metrics.get(key, 0.5) * w\<close> for a float \<open>w\<close>.\<close>

definition weighted_term :: "json \<Rightarrow> pystr \<Rightarrow> rat \<Rightarrow> py_exception + rat" where
  "weighted_term metrics key w =
     (case dict_get metrics key (JFloat (1/2)) of
        Inl e \<Rightarrow> Inl e
      | Inr v \<Rightarrow> (case number_of v of None \<Rightarrow> Inl TypeError | Some x \<Rightarrow> Inr (x * w)))"

definition composite_score :: "json \<Rightarrow> py_exception + rat" where
  "composite_score metrics =
     (case weighted_term metrics (str ''accuracy'') (1/2) of
        Inl e \<Rightarrow> Inl e
      | Inr a \<Rightarrow>
          (case weighted_term metrics (str ''guidance'') (3/10) of
             Inl e \<Rightarrow> Inl e
           | Inr g \<Rightarrow>
               (case weighted_term metrics (str ''clarity'') (1/5) of
                  Inl e \<Rightarrow> Inl e
                | Inr c \<Rightarrow> Inr (a + g + c))))"

text \<open>The two early returns and the \<^verbatim>\<open>except Exception\<close> branch all return 0.5.\<close>

definition neutral_result :: "bool \<Rightarrow> reason \<Rightarrow> rat \<times> sample_metrics" where
  "neutral_result fc why =
     (1/2, \<lparr>format_correct = fc, educational_value = 1/2, failure_reason = why\<rparr>)"

text \<open>The string of the empty-reply branch: \<^verbatim>\<open>LLM\<close> followed by U+8FD4, U+56DE, U+7A7A.\<close>

definition llm_returned_empty :: pystr where
  "llm_returned_empty = str ''LLM'' @ [0x8FD4, 0x56DE, 0x7A7A]"

definition score_metrics :: "bool \<Rightarrow> json \<Rightarrow> rat \<times> sample_metrics" where
  "score_metrics fc metrics =
     (case composite_score metrics of
        Inl e \<Rightarrow> neutral_result fc (ErrorText e)
      | Inr score \<Rightarrow>
          (case dict_get metrics (str ''guidance'') (JFloat (1/2)) of
             Inl e \<Rightarrow> neutral_result fc (ErrorText e)
           | Inr g \<Rightarrow>
               (case dict_get metrics (str ''failure_reason'') (JStr []) of
                  Inl e \<Rightarrow> neutral_result fc (ErrorText e)
                | Inr why \<Rightarrow>
                    (score, \<lparr>format_correct = fc,
                             educational_value = (case number_of g of Some x \<Rightarrow> x | None \<Rightarrow> 1/2),
                             failure_reason = Value why\<rparr>))))"

definition evaluate_single_response ::
  "(pystr \<Rightarrow> py_exception + json) \<Rightarrow> reply \<Rightarrow> pystr \<Rightarrow> rat \<times> sample_metrics" where
  "evaluate_single_response loads eval_reply response =
     (let fc = check_format response
      in case eval_reply of
           Raises msg \<Rightarrow> neutral_result fc (Value (JStr msg))
         | Returns None \<Rightarrow> neutral_result fc (Value (JStr llm_returned_empty))
         | Returns (Some eval_result) \<Rightarrow>
             if eval_result = [] then neutral_result fc (Value (JStr llm_returned_empty))
             else (case parse_metrics loads eval_result of
                     Inl e \<Rightarrow> neutral_result fc (ErrorText e)
                   | Inr metrics \<Rightarrow> score_metrics fc metrics))"

section \<open>Test cases and the evaluation state\<close>

datatype error_kind = Syntax | Runtime | Logical | Conceptual

datatype level = Beginner | Intermediate | Advanced

record test_case =
  code :: pystr
  error_type :: error_kind
  difficulty :: level
  expected_output :: pystr

text \<open>An entry of \<^verbatim>\<open>error_samples\<close>, as the scored branch of the loop builds it.\<close>

record error_sample =
  es_input :: pystr
  es_output :: pystr
  es_expected :: pystr
  es_error_type :: error_kind
  es_difficulty :: level
  es_score :: rat
  es_reason :: reason

text \<open>
  The dictionary \<^verbatim>\<open>stats\<close>: \<open>kind_correct k\<close> and \<open>level_correct d\<close> are its entries
  \<^verbatim>\<open>f'{error_type}_correct'\<close> and \<^verbatim>\<open>f'{difficulty}_correct'\<close>.
\<close>

record stats =
  kind_correct :: "error_kind \<Rightarrow> nat"
  level_correct :: "level \<Rightarrow> nat"
  stat_format_correct :: nat
  educational_value_sum :: rat
  total :: nat

text \<open>
  The local variables of \<^verbatim>\<open>evaluate\<close> that the loop updates. \<open>calls\<close> counts the
  invocations of the language model so far: the model is an oracle \<open>llm\<close>, and \<open>llm k\<close> is
  what invocation number \<open>k\<close> of the run does, whatever it was sent.
\<close>

record eval_state =
  total_score :: rat
  perf_vector :: "nat list"
  error_samples :: "error_sample list"
  stats :: stats
  type_counts :: "error_kind \<Rightarrow> nat"
  difficulty_counts :: "level \<Rightarrow> nat"
  calls :: nat

definition initial_state :: "nat \<Rightarrow> eval_state" where
  "initial_state n =
     \<lparr>total_score = 0, perf_vector = [], error_samples = [],
      stats = \<lparr>kind_correct = (\<lambda>k. 0), level_correct = (\<lambda>d. 0), stat_format_correct = 0,
               educational_value_sum = 0, total = n\<rparr>,
      type_counts = (\<lambda>k. 0), difficulty_counts = (\<lambda>d. 0), calls = 0\<rparr>"

section \<open>The retry loop of \<^verbatim>\<open>evaluate\<close>\<close>

text \<open>\<^verbatim>\<open>response and len(response.strip()) > 0\<close>\<close>

definition accepted :: "pystr option \<Rightarrow> bool" where
  "accepted response = (case response of None \<Rightarrow> False | Some r \<Rightarrow> r \<noteq> [] \<and> \<not> blank r)"

text \<open>
  \<^verbatim>\<open>for retry in range(max_retries)\<close>: the first argument after the oracle is the number of
  attempts left, \<open>c\<close> the number of the next invocation, \<open>response\<close> the variable of that
  name, which an attempt that raises leaves as it was.
\<close>

fun generate_response :: "(nat \<Rightarrow> reply) \<Rightarrow> nat \<Rightarrow> nat \<Rightarrow> pystr option \<Rightarrow> pystr option \<times> nat" where
  "generate_response llm 0 c response = (response, c)"
| "generate_response llm (Suc retries) c response =
     (case llm c of
        Raises msg \<Rightarrow> generate_response llm retries (Suc c) response
      | Returns r \<Rightarrow> if accepted r then (r, Suc c)
                     else generate_response llm retries (Suc c) r)"

definition max_retries :: nat where
  "max_retries = 3"

section \<open>\<^verbatim>\<open>evaluate\<close>\<close>

text \<open>
  The body of \<^verbatim>\<open>for idx, row in test_data.iterrows()\<close>. The two counters are
  updated before the \<^verbatim>\<open>try\<close>. Inside it the retry loop catches what an attempt raises
  and the judge catches what grading raises, so with replies that are \<^verbatim>\<open>None\<close> or
  strings no statement reaches the outer \<^verbatim>\<open>except Exception\<close>, and that handler has no
  branch here. The system prompt and the user message only feed the oracle.
\<close>

definition eval_row ::
  "(pystr \<Rightarrow> py_exception + json) \<Rightarrow> (nat \<Rightarrow> reply) \<Rightarrow> eval_state \<Rightarrow> test_case \<Rightarrow> eval_state" where
  "eval_row loads llm s0 row =
     (let s = s0\<lparr>type_counts := (type_counts s0)(error_type row := type_counts s0 (error_type row) + 1),
                 difficulty_counts :=
                   (difficulty_counts s0)(difficulty row := difficulty_counts s0 (difficulty row) + 1)\<rparr>
      in case generate_response llm max_retries (calls s) None of
           (response, c) \<Rightarrow>
             if \<not> accepted response
             then s\<lparr>perf_vector := perf_vector s @ [0], calls := c\<rparr>
             else
               (case evaluate_single_response loads (llm c) (the response) of
                  (score, metrics) \<Rightarrow>
                    let st = stats s;
                        st1 = (if score \<ge> 7/10
                               then st\<lparr>kind_correct := (kind_correct st)
                                          (error_type row := kind_correct st (error_type row) + 1),
                                        level_correct := (level_correct st)
                                          (difficulty row := level_correct st (difficulty row) + 1)\<rparr>
                               else st);
                        st2 = (if format_correct metrics
                               then st1\<lparr>stat_format_correct := stat_format_correct st1 + 1\<rparr>
                               else st1);
                        st3 = st2\<lparr>educational_value_sum :=
                                     educational_value_sum st2 + educational_value metrics\<rparr>
                    in s\<lparr>total_score := total_score s + score,
                         perf_vector := perf_vector s @ [if score \<ge> 7/10 then 1 else 0],
                         stats := st3,
                         error_samples :=
                           (if score < 17/20
                            then error_samples s @
                                 [\<lparr>es_input = code row, es_output = the response,
                                   es_expected = expected_output row,
                                   es_error_type = error_type row, es_difficulty = difficulty row,
                                   es_score = score, es_reason = failure_reason metrics\<rparr>]
                            else error_samples s),
                         calls := Suc c\<rparr>))"

text \<open>The weights of \<^verbatim>\<open>self.error_types\<close>, in the order of that dictionary.\<close>

fun weight :: "error_kind \<Rightarrow> rat" where
  "weight Syntax = 1/4"
| "weight Runtime = 7/20"
| "weight Logical = 1/4"
| "weight Conceptual = 3/20"

definition error_types :: "error_kind list" where
  "error_types = [Syntax, Runtime, Logical, Conceptual]"

definition difficulty_levels :: "level list" where
  "difficulty_levels = [Beginner, Intermediate, Advanced]"

record report_metrics =
  overall_score :: rat
  error_detection :: rat
  m_educational_value :: rat
  format_compliance :: rat
  difficulty_adaptation :: rat
  m_error_samples :: "error_sample list"
  m_stats :: stats

record evidence =
  metrics :: report_metrics
  ev_perf_vector :: "nat list"
  fp_samples :: "error_sample list"
  ev_error_samples :: "error_sample list"

definition error_detection_of :: "eval_state \<Rightarrow> rat" where
  "error_detection_of s =
     foldl (\<lambda>acc k. if type_counts s k > 0
                     then acc + (of_nat (kind_correct (stats s) k) / of_nat (type_counts s k)) * weight k
                     else acc) 0 error_types"

definition difficulty_of :: "eval_state \<Rightarrow> rat" where
  "difficulty_of s =
     foldl (\<lambda>acc d. if difficulty_counts s d > 0
                     then acc + (of_nat (level_correct (stats s) d) / of_nat (difficulty_counts s d)) / 3
                     else acc) 0 difficulty_levels"

text \<open>
  \<^verbatim>\<open>evaluate\<close>. The two divisions by \<^verbatim>\<open>n = len(test_data)\<close> are not guarded, and the
  first of them, \<^verbatim>\<open>stats['educational_value_sum'] / n\<close>, raises when \<open>n\<close> is 0.
\<close>

definition evaluate ::
  "(pystr \<Rightarrow> py_exception + json) \<Rightarrow> (nat \<Rightarrow> reply) \<Rightarrow> test_case list
     \<Rightarrow> py_exception + rat \<times> evidence" where
  "evaluate loads llm test_data =
     (let s = foldl (eval_row loads llm) (initial_state (length test_data)) test_data;
          n = length test_data;
          error_detection_score = error_detection_of s
      in if n = 0 then Inl ZeroDivisionError
         else
           let educational_score = educational_value_sum (stats s) / of_nat n;
               format_score = of_nat (stat_format_correct (stats s)) / of_nat n;
               difficulty_score = difficulty_of s;
               final_score = error_detection_score * (2/5) + educational_score * (3/10)
                             + format_score * (1/5) + difficulty_score * (1/10)
           in Inr (final_score,
                   \<lparr>metrics = \<lparr>overall_score = final_score,
                               error_detection = error_detection_score,
                               m_educational_value = educational_score,
                               format_compliance = format_score,
                               difficulty_adaptation = difficulty_score,
                               m_error_samples = take 20 (error_samples s),
                               m_stats = stats s\<rparr>,
                    ev_perf_vector = perf_vector s,
                    fp_samples = error_samples s,
                    ev_error_samples = error_samples s\<rparr>))"

section \<open>\<^verbatim>\<open>sample_balanced_cases\<close>\<close>

text \<open>
  The module \<^verbatim>\<open>random\<close> is library code with a global generator state, of some type
  \<open>'g\<close>. It enters as two parameters: \<open>rseed seed\<close> is the state that
  \<^verbatim>\<open>random.seed(seed)\<close> installs, and \<open>rsample g n k\<close> gives the positions that
  \<^verbatim>\<open>random.sample\<close> picks from a population of length \<open>n\<close> when asked for \<open>k\<close> items in
  state \<open>g\<close>, with the state it leaves. \<open>sample_contract\<close> is what the library promises of
  these positions: \<open>k\<close> of them, pairwise different, all inside the population.
\<close>

definition sample_contract :: "('g \<Rightarrow> nat \<Rightarrow> nat \<Rightarrow> nat list \<times> 'g) \<Rightarrow> bool" where
  "sample_contract rsample =
     (\<forall>g n k. k \<le> n \<longrightarrow>
        length (fst (rsample g n k)) = k \<and> distinct (fst (rsample g n k))
        \<and> (\<forall>i \<in> set (fst (rsample g n k)). i < n))"

definition random_sample ::
  "('g \<Rightarrow> nat \<Rightarrow> nat \<Rightarrow> nat list \<times> 'g) \<Rightarrow> 'g \<Rightarrow> 'a list \<Rightarrow> nat \<Rightarrow> 'a list \<times> 'g" where
  "random_sample rsample g population k =
     (case rsample g (length population) k of
        (idxs, g') \<Rightarrow> (map (\<lambda>i. population ! i) idxs, g'))"

fun kind_name :: "error_kind \<Rightarrow> string" where
  "kind_name Syntax = ''syntax''"
| "kind_name Runtime = ''runtime''"
| "kind_name Logical = ''logical''"
| "kind_name Conceptual = ''conceptual''"

fun level_name :: "level \<Rightarrow> string" where
  "level_name Beginner = ''beginner''"
| "level_name Intermediate = ''intermediate''"
| "level_name Advanced = ''advanced''"

text \<open>\<^verbatim>\<open>key = (case['error_type'], case['difficulty'])\<close>, a pair of strings.\<close>

definition group_key :: "test_case \<Rightarrow> string \<times> string" where
  "group_key c = (kind_name (error_type c), level_name (difficulty c))"

text \<open>
  The dictionary \<^verbatim>\<open>groups\<close> keeps its keys in insertion order, so it is an association
  list; \<open>groups_add\<close> is one round of the grouping loop.
\<close>

fun groups_add ::
  "test_case \<Rightarrow> ((string \<times> string) \<times> test_case list) list
     \<Rightarrow> ((string \<times> string) \<times> test_case list) list" where
  "groups_add c [] = [(group_key c, [c])]"
| "groups_add c ((k, cs) # gs) =
     (if k = group_key c then (k, cs @ [c]) # gs else (k, cs) # groups_add c gs)"

definition group_cases :: "test_case list \<Rightarrow> ((string \<times> string) \<times> test_case list) list" where
  "group_cases cases = foldl (\<lambda>gs c. groups_add c gs) [] cases"

text \<open>
  \<^verbatim>\<open>sorted(groups.items())\<close>: the keys of a dictionary differ, so the comparison of two
  items is decided by their keys, compared as pairs of strings.
\<close>

definition sorted_groups :: "test_case list \<Rightarrow> ((string \<times> string) \<times> test_case list) list" where
  "sorted_groups cases = sort_key fst (group_cases cases)"

text \<open>The loop over the sorted groups, extending \<^verbatim>\<open>sampled\<close> group by group.\<close>

fun sample_groups ::
  "('g \<Rightarrow> nat \<Rightarrow> nat \<Rightarrow> nat list \<times> 'g) \<Rightarrow> nat \<Rightarrow> 'g
     \<Rightarrow> ((string \<times> string) \<times> test_case list) list \<Rightarrow> test_case list \<times> 'g" where
  "sample_groups rsample samples_per_group g [] = ([], g)"
| "sample_groups rsample samples_per_group g ((key, members) # rest) =
     (case random_sample rsample g members (min samples_per_group (length members)) of
        (xs, g1) \<Rightarrow>
          (case sample_groups rsample samples_per_group g1 rest of
             (ys, g2) \<Rightarrow> (xs @ ys, g2)))"

text \<open>\<^verbatim>\<open>xs[:m]\<close> for a Python integer \<open>m\<close>.\<close>

definition slice_to :: "'a list \<Rightarrow> int \<Rightarrow> 'a list" where
  "slice_to xs m = (if 0 \<le> m then take (nat m) xs else take (length xs - nat (- m)) xs)"

text \<open>
  \<^verbatim>\<open>sample_balanced_cases(cases, max_samples, seed)\<close>, run in the generator state \<open>g0\<close>;
  the result is the returned list, or the exception, with the generator state left behind.
  \<^verbatim>\<open>max_samples // len(groups)\<close> raises when there is no group.
\<close>

definition sample_balanced_cases ::
  "(int \<Rightarrow> 'g) \<Rightarrow> ('g \<Rightarrow> nat \<Rightarrow> nat \<Rightarrow> nat list \<times> 'g) \<Rightarrow> test_case list \<Rightarrow> int \<Rightarrow> int \<Rightarrow> 'g
     \<Rightarrow> (py_exception + test_case list) \<times> 'g" where
  "sample_balanced_cases rseed rsample cases max_samples seed g0 =
     (let g = rseed seed;
          groups = group_cases cases
      in if length groups = 0 then (Inl ZeroDivisionError, g)
         else
           let samples_per_group = max 1 (max_samples div int (length groups))
           in case sample_groups rsample (nat samples_per_group) g (sorted_groups cases) of
                (sampled, g1) \<Rightarrow>
                  if int (length sampled) < max_samples
                  then
                    let remaining = filter (\<lambda>c. c \<notin> set sampled) cases
                    in if remaining \<noteq> []
                       then
                         let additional = min (nat (max_samples - int (length sampled)))
                                              (length remaining)
                         in case random_sample rsample g1 remaining additional of
                              (extra, g2) \<Rightarrow> (Inr (slice_to (sampled @ extra) max_samples), g2)
                       else (Inr (slice_to sampled max_samples), g1)
                  else (Inr (slice_to sampled max_samples), g1))"

section \<open>Notions used to state the properties\<close>

text \<open>\<open>sub\<close> occurs in \<open>s\<close> as a contiguous block.\<close>

definition occurs_in :: "pystr \<Rightarrow> pystr \<Rightarrow> bool" where
  "occurs_in sub s = (\<exists>pre post. s = pre @ sub @ post)"

text \<open>
  What happens to one test case: either no usable response was obtained, or the response
  was graded with a composite score and a metrics dictionary. \<open>sample_outcome\<close> reads it
  off the oracle from invocation \<open>c\<close> on, and returns the number of the next invocation;
  \<open>outcomes\<close> does so for a whole corpus, in evaluation order.
\<close>

datatype outcome = NoResponse | Graded pystr rat sample_metrics

definition sample_outcome ::
  "(pystr \<Rightarrow> py_exception + json) \<Rightarrow> (nat \<Rightarrow> reply) \<Rightarrow> nat \<Rightarrow> outcome \<times> nat" where
  "sample_outcome loads llm c =
     (case generate_response llm max_retries c None of
        (response, c') \<Rightarrow>
          if \<not> accepted response then (NoResponse, c')
          else (case evaluate_single_response loads (llm c') (the response) of
                  (score, m) \<Rightarrow> (Graded (the response) score m, Suc c')))"

fun outcomes ::
  "(pystr \<Rightarrow> py_exception + json) \<Rightarrow> (nat \<Rightarrow> reply) \<Rightarrow> nat \<Rightarrow> 'a list \<Rightarrow> outcome list" where
  "outcomes loads llm c [] = []"
| "outcomes loads llm c (row # rows) =
     fst (sample_outcome loads llm c) # outcomes loads llm (snd (sample_outcome loads llm c)) rows"

text \<open>A sample passes when it was graded with a composite score of at least 0.7.\<close>

fun passed :: "outcome \<Rightarrow> bool" where
  "passed NoResponse = False"
| "passed (Graded r score m) = (score \<ge> 7/10)"

fun score_of :: "outcome \<Rightarrow> rat option" where
  "score_of NoResponse = None"
| "score_of (Graded r score m) = Some score"

fun guidance_of :: "outcome \<Rightarrow> rat" where
  "guidance_of NoResponse = 0"
| "guidance_of (Graded r score m) = educational_value m"

fun format_ok :: "outcome \<Rightarrow> bool" where
  "format_ok NoResponse = False"
| "format_ok (Graded r score m) = format_correct m"

text \<open>
  The low-score entry of a test case: one entry, with the seven fields, when the sample
  was graded below 0.85, and none otherwise.
\<close>

fun low_entry :: "test_case \<Rightarrow> outcome \<Rightarrow> error_sample list" where
  "low_entry row NoResponse = []"
| "low_entry row (Graded r score m) =
     (if score < 17/20
      then [\<lparr>es_input = code row, es_output = r, es_expected = expected_output row,
             es_error_type = error_type row, es_difficulty = difficulty row,
             es_score = score, es_reason = failure_reason m\<rparr>]
      else [])"

definition low_score_entries :: "test_case list \<Rightarrow> outcome list \<Rightarrow> error_sample list" where
  "low_score_entries rows outs = concat (map (\<lambda>(r, out). low_entry r out) (zip rows outs))"

definition count_kind :: "error_kind \<Rightarrow> test_case list \<Rightarrow> nat" where
  "count_kind k rows = length (filter (\<lambda>r. error_type r = k) rows)"

definition count_level :: "level \<Rightarrow> test_case list \<Rightarrow> nat" where
  "count_level d rows = length (filter (\<lambda>r. difficulty r = d) rows)"

definition pass_kind :: "error_kind \<Rightarrow> test_case list \<Rightarrow> outcome list \<Rightarrow> nat" where
  "pass_kind k rows outs =
     length (filter (\<lambda>(r, out). error_type r = k \<and> passed out) (zip rows outs))"

definition pass_level :: "level \<Rightarrow> test_case list \<Rightarrow> outcome list \<Rightarrow> nat" where
  "pass_level d rows outs =
     length (filter (\<lambda>(r, out). difficulty r = d \<and> passed out) (zip rows outs))"

text \<open>The stratum of a key: the test cases with that key, in corpus order.\<close>

definition stratum :: "string \<times> string \<Rightarrow> test_case list \<Rightarrow> test_case list" where
  "stratum k cases = filter (\<lambda>c. group_key c = k) cases"

text \<open>The loop of \<^verbatim>\<open>evaluate\<close> from a state on, and the state it ends in.\<close>

definition run ::
  "(pystr \<Rightarrow> py_exception + json) \<Rightarrow> (nat \<Rightarrow> reply) \<Rightarrow> eval_state \<Rightarrow> test_case list
     \<Rightarrow> eval_state" where
  "run loads llm s rows = foldl (eval_row loads llm) s rows"

definition final_state ::
  "(pystr \<Rightarrow> py_exception + json) \<Rightarrow> (nat \<Rightarrow> reply) \<Rightarrow> test_case list \<Rightarrow> eval_state" where
  "final_state loads llm rows = run loads llm (initial_state (length rows)) rows"

text \<open>
  An attempt is rejected when it raises or returns nothing usable; the generator is
  exhausted at invocation \<open>c\<close> when its three attempts are rejected.
\<close>

definition rejected :: "reply \<Rightarrow> bool" where
  "rejected r = (case r of Raises msg \<Rightarrow> True | Returns response \<Rightarrow> \<not> accepted response)"

definition exhausted :: "(nat \<Rightarrow> reply) \<Rightarrow> nat \<Rightarrow> bool" where
  "exhausted llm c = (rejected (llm c) \<and> rejected (llm (Suc c)) \<and> rejected (llm (Suc (Suc c))))"

section \<open>Example inputs\<close>

text \<open>An oracle that plays a finite script of replies and returns \<^verbatim>\<open>None\<close> afterwards.\<close>

definition scripted :: "reply list \<Rightarrow> nat \<Rightarrow> reply" where
  "scripted replies k = (if k < length replies then replies ! k else Returns None)"

text \<open>A decoder for runs in which no grader reply holds a brace.\<close>

definition no_json :: "pystr \<Rightarrow> py_exception + json" where
  "no_json t = Inl JSONDecodeError"

definition case_of :: "error_kind \<Rightarrow> level \<Rightarrow> string \<Rightarrow> test_case" where
  "case_of k d s = \<lparr>code = str s, error_type = k, difficulty = d, expected_output = str ''fix''\<rparr>"

text \<open>
  A grader reply with prose around a JSON object, the text of the object, and what
  \<^verbatim>\<open>json.loads\<close> returns on that text.
\<close>

definition structured_reply :: pystr where
  "structured_reply = str ''Here: {\"accuracy\": 0.9, \"guidance\": 0.8, \"clarity\": 0.7} ok''"

definition structured_object_text :: pystr where
  "structured_object_text = str ''{\"accuracy\": 0.9, \"guidance\": 0.8, \"clarity\": 0.7}''"

definition structured_object :: "(pystr \<times> json) list" where
  "structured_object =
     [(str ''accuracy'', JFloat (9/10)), (str ''guidance'', JFloat (4/5)),
      (str ''clarity'', JFloat (7/10))]"

definition loads_structured :: "pystr \<Rightarrow> py_exception + json" where
  "loads_structured t =
     (if t = structured_object_text then Inr (JObj structured_object) else Inl JSONDecodeError)"

text \<open>Three attempts that all fail: an exception, a blank reply, \<^verbatim>\<open>None\<close>.\<close>

definition silent_replies :: "reply list" where
  "silent_replies = [Raises (str ''timeout''), Returns (Some (str ''  '')), Returns None]"

definition one_case :: "test_case list" where
  "one_case = [case_of Syntax Beginner ''a'']"

text \<open>
  A corpus with one sample of each kind, and a script in which the responder answers at
  the first attempt and the grader replies in plain text, without braces.
\<close>

definition four_kinds :: "test_case list" where
  "four_kinds = [case_of Syntax Beginner ''a'', case_of Runtime Intermediate ''b'',
                 case_of Logical Advanced ''c'', case_of Conceptual Beginner ''d'']"

definition four_replies :: "reply list" where
  "four_replies =
     [Returns (Some (str ''def f: Error'')),
      Returns (Some (str ''accuracy: 0.9, guidance: 0.9, clarity: 0.9'')),
      Returns (Some (str ''no'')),
      Returns (Some (str ''Accuracy 0.3 Guidance 0.3 Clarity 0.3'')),
      Returns (Some (str ''ok'')),
      Returns (Some (str ''accuracy 0.95 guidance 0.95 clarity 0.95'')),
      Returns (Some (str ''ok'')),
      Returns (Some (str ''accuracy 0.6 guidance 0.6 clarity 0.6''))]"

definition inflated_replies :: "reply list" where
  "inflated_replies = [Returns (Some (str ''ok'')), Returns (Some (str ''guidance: 7''))]"

text \<open>
  A stand-in for the library generator: the state counts the calls, and a sample of
  \<open>k\<close> items takes the first \<open>k\<close> positions. It meets \<open>sample_contract\<close>.
\<close>

definition first_positions :: "nat \<Rightarrow> nat \<Rightarrow> nat \<Rightarrow> nat list \<times> nat" where
  "first_positions g n k = ([0..<k], Suc g)"

definition seed_counter :: "int \<Rightarrow> nat" where
  "seed_counter seed = nat \<bar>seed\<bar>"

definition distinct_corpus :: "test_case list" where
  "distinct_corpus = [case_of Syntax Beginner ''a'', case_of Syntax Beginner ''b'',
                      case_of Logical Advanced ''c'']"

definition duplicated_corpus :: "test_case list" where
  "duplicated_corpus = [case_of Syntax Beginner ''a'', case_of Syntax Beginner ''a'',
                        case_of Logical Advanced ''b'']"

text \<open>
  An oracle that answers \<^verbatim>\<open>ok\<close> to every invocation, responder and grader alike, and
  a corpus of 21 test cases.
\<close>

definition always_ok :: "nat \<Rightarrow> reply" where
  "always_ok k = Returns (Some (str ''ok''))"

definition twenty_one_cases :: "test_case list" where
  "twenty_one_cases = replicate 21 (case_of Syntax Beginner ''a'')"

text \<open>
  A grader reply that is one JSON object whose \<^verbatim>\<open>failure_reason\<close> holds a closing brace,
  the object \<^verbatim>\<open>json.loads\<close> returns on it, and a decoder that knows this text only.
\<close>

definition nested_reply :: pystr where
  "nested_reply = str ''{\"failure_reason\": \"accuracy: 0 }\", \"accuracy\": 0.9, \"guidance\": 0.8, \"clarity\": 0.7}''"

definition nested_object :: "(pystr \<times> json) list" where
  "nested_object =
     [(str ''failure_reason'', JStr (str ''accuracy: 0 }'')), (str ''accuracy'', JFloat (9/10)),
      (str ''guidance'', JFloat (4/5)), (str ''clarity'', JFloat (7/10))]"

definition loads_nested :: "pystr \<Rightarrow> py_exception + json" where
  "loads_nested t = (if t = nested_reply then Inr (JObj nested_object) else Inl JSONDecodeError)"

section \<open>The empty corpus\<close>

text \<open>
  Claim C1. On the empty corpus \<^verbatim>\<open>evaluate\<close> does not return a report: the division of
  the educational sum by the number of samples raises \<^verbatim>\<open>ZeroDivisionError\<close>, whatever
  the decoder and the language model are.
\<close>

theorem evaluate_empty_corpus_raises:
  "evaluate loads llm [] = Inl ZeroDivisionError"
  by (simp add: evaluate_def)

section \<open>The judge on a structured reply\<close>

text \<open>
  Where the search for a brace span lands: after prose without an opening brace, on an
  object whose text holds no closing brace before its last character.
\<close>

lemma re_search_braces_finds:
  fixes pre body post :: pystr
  assumes "0x7B \<notin> set pre" and "body \<noteq> []" and "0x7D \<notin> set body"
  shows "re_search_braces (pre @ 0x7B # body @ 0x7D # post) = Some (0x7B # body @ [0x7D])"
  using assms(1)
proof (induction pre)
  case Nil
  have b: "x \<noteq> 0x7D" if "x \<in> set body" for x
    using assms(3) that by auto
  have t: "takeWhile (\<lambda>x. x \<noteq> 0x7D) (body @ 0x7D # post) = body"
    using b by (simp add: takeWhile_append2)
  have d: "dropWhile (\<lambda>x. x \<noteq> 0x7D) (body @ 0x7D # post) = 0x7D # post"
    using b by (simp add: dropWhile_append2)
  show ?case using assms(2) by (simp add: brace_match_at_def t d)
next
  case (Cons a pre)
  then have "a \<noteq> 0x7B" by auto
  then have "brace_match_at (a # pre @ 0x7B # body @ 0x7D # post) = None"
    by (simp add: brace_match_at_def)
  with Cons show ?case by simp
qed

lemma composite_of_values:
  assumes "map_of kvs (str ''accuracy'') = Some (JFloat a)"
      and "map_of kvs (str ''guidance'') = Some (JFloat g)"
      and "map_of kvs (str ''clarity'') = Some (JFloat c)"
  shows "composite_score (JObj kvs) = Inr (a * (1/2) + g * (3/10) + c * (1/5))"
  using assms by (simp add: composite_score_def weighted_term_def dict_get_def)

text \<open>
  Claim C8. (amended) When the first brace span of the grader's reply, from the first
  opening brace that is followed by another character up to the next closing brace,
  decodes to an object with accuracy 0.9, guidance 0.8 and clarity 0.7, the composite score
  is 0.5 * 0.9 + 0.3 * 0.8 + 0.2 * 0.7, which is 0.83.
\<close>

theorem judge_structured_reply_score:
  assumes "re_search_braces eval_result = Some json_text"
      and "loads json_text = Inr (JObj kvs)"
      and "map_of kvs (str ''accuracy'') = Some (JFloat (9/10))"
      and "map_of kvs (str ''guidance'') = Some (JFloat (4/5))"
      and "map_of kvs (str ''clarity'') = Some (JFloat (7/10))"
  shows "fst (evaluate_single_response loads (Returns (Some eval_result)) response)
           = (1/2) * (9/10) + (3/10) * (4/5) + (1/5) * (7/10)
         \<and> fst (evaluate_single_response loads (Returns (Some eval_result)) response) = 83/100"
proof -
  from assms(1) have ne: "eval_result \<noteq> []" by auto
  have pm: "parse_metrics loads eval_result = Inr (JObj kvs)"
    using assms(1,2) by (simp add: parse_metrics_def)
  have cs: "composite_score (JObj kvs) = Inr (83/100)"
    using composite_of_values[OF assms(3,4,5)] by simp
  have "fst (score_metrics fc (JObj kvs)) = 83/100" for fc
    using cs by (simp add: score_metrics_def dict_get_def)
  then show ?thesis using ne pm by (simp add: evaluate_single_response_def)
qed

theorem judge_structured_reply_score_witness:
  "re_search_braces structured_reply = Some structured_object_text
   \<and> loads_structured structured_object_text = Inr (JObj structured_object)
   \<and> map_of structured_object (str ''accuracy'') = Some (JFloat (9/10))
   \<and> map_of structured_object (str ''guidance'') = Some (JFloat (4/5))
   \<and> map_of structured_object (str ''clarity'') = Some (JFloat (7/10))
   \<and> fst (evaluate_single_response loads_structured (Returns (Some structured_reply)) (str ''ok''))
       = 83/100"
proof -
  have h1: "re_search_braces structured_reply = Some structured_object_text"
    by (simp add: structured_reply_def structured_object_text_def str_def brace_match_at_def)
  have h2: "loads_structured structured_object_text = Inr (JObj structured_object)"
    by (simp add: loads_structured_def)
  have h3: "map_of structured_object (str ''accuracy'') = Some (JFloat (9/10))"
    by (simp add: structured_object_def str_def)
  have h4: "map_of structured_object (str ''guidance'') = Some (JFloat (4/5))"
    by (simp add: structured_object_def str_def)
  have h5: "map_of structured_object (str ''clarity'') = Some (JFloat (7/10))"
    by (simp add: structured_object_def str_def)
  from judge_structured_reply_score
         [where loads = loads_structured and response = "str ''ok''", OF h1 h2 h3 h4 h5]
    h1 h2 h3 h4 h5
  show ?thesis by blast
qed

section \<open>The format check\<close>

lemma startswith_iff: "startswith s p \<longleftrightarrow> (\<exists>post. s = p @ post)"
  by (induction s p rule: startswith.induct) auto

lemma contains_iff: "contains s sub \<longleftrightarrow> occurs_in sub s"
proof (induction s)
  case Nil
  show ?case by (auto simp: occurs_in_def)
next
  case (Cons c cs)
  show ?case
  proof
    assume "contains (c # cs) sub"
    then consider "startswith (c # cs) sub" | "contains cs sub" by auto
    then show "occurs_in sub (c # cs)"
    proof cases
      case 1
      then obtain post where "c # cs = sub @ post" by (auto simp: startswith_iff)
      then have "c # cs = [] @ sub @ post" by simp
      then show ?thesis unfolding occurs_in_def by blast
    next
      case 2
      with Cons obtain pre post where "cs = pre @ sub @ post" by (auto simp: occurs_in_def)
      then have "c # cs = (c # pre) @ sub @ post" by simp
      then show ?thesis unfolding occurs_in_def by blast
    qed
  next
    assume "occurs_in sub (c # cs)"
    then obtain pre post where eq: "c # cs = pre @ sub @ post" by (auto simp: occurs_in_def)
    show "contains (c # cs) sub"
    proof (cases pre)
      case Nil
      with eq have "startswith (c # cs) sub" by (auto simp: startswith_iff)
      then show ?thesis by simp
    next
      case (Cons a pre')
      with eq have "cs = pre' @ sub @ post" by simp
      then have "occurs_in sub cs" unfolding occurs_in_def by blast
      with Cons.IH show ?thesis by simp
    qed
  qed
qed

lemma format_correct_neutral: "format_correct (snd (neutral_result fc why)) = fc"
  by (simp add: neutral_result_def)

lemma format_correct_score_metrics: "format_correct (snd (score_metrics fc m)) = fc"
  by (simp add: score_metrics_def format_correct_neutral split: sum.splits)

lemma format_correct_judge:
  "format_correct (snd (evaluate_single_response loads eval_reply response)) = check_format response"
  by (simp add: evaluate_single_response_def Let_def format_correct_neutral
      format_correct_score_metrics split: reply.splits option.splits sum.splits)

lemma check_format_accepts_example: "check_format (str ''def f(): return 1  # Error here'')"
  by (simp add: check_format_def str_def)

lemma check_format_is_case_sensitive: "\<not> check_format (str ''def f(): return 1  # error here'')"
  by (simp add: check_format_def str_def)

lemma check_format_needs_code_marker: "\<not> check_format ([0x9519, 0x8BEF] @ str '' in Def f()'')"
  by (simp add: check_format_def str_def)

lemma check_format_accepts_fence: "check_format ([0x60, 0x60, 0x60] @ str ''x'' @ [0x4FEE, 0x6B63])"
  by (simp add: check_format_def str_def)

text \<open>
  Claim C10. For every responder reply, the format flag is true exactly when the reply
  contains one of the code markers (three backquotes, \<^verbatim>\<open>def \<close>, \<^verbatim>\<open>return\<close>) and one of the
  explanation markers (U+9519 U+8BEF, \<^verbatim>\<open>Error\<close>, U+95EE U+9898, U+4FEE U+6B63); and the
  flag the judge reports is this value of the responder's text, whatever the grading model
  replies and whatever the decoder does.
\<close>

theorem check_format_markers:
  "(check_format response \<longleftrightarrow>
      (occurs_in [0x60, 0x60, 0x60] response \<or> occurs_in (str ''def '') response
       \<or> occurs_in (str ''return'') response)
      \<and> (occurs_in [0x9519, 0x8BEF] response \<or> occurs_in (str ''Error'') response
         \<or> occurs_in [0x95EE, 0x9898] response \<or> occurs_in [0x4FEE, 0x6B63] response))
   \<and> format_correct (snd (evaluate_single_response loads eval_reply response))
       = check_format response"
  by (simp add: format_correct_judge check_format_def contains_iff)

section \<open>The evaluation loop, sample by sample\<close>

lemma run_Nil: "run loads llm s [] = s"
  by (simp add: run_def)

lemma run_Cons: "run loads llm s (row # rows) = run loads llm (eval_row loads llm s row) rows"
  by (simp add: run_def)

lemma step_calls: "calls (eval_row loads llm s row) = snd (sample_outcome loads llm (calls s))"
  by (simp add: eval_row_def sample_outcome_def Let_def split: prod.splits)

lemma step_type_counts:
  "type_counts (eval_row loads llm s row) = (type_counts s)(error_type row := type_counts s (error_type row) + 1)"
  by (simp add: eval_row_def Let_def split: prod.splits)

lemma step_difficulty_counts:
  "difficulty_counts (eval_row loads llm s row) =
     (difficulty_counts s)(difficulty row := difficulty_counts s (difficulty row) + 1)"
  by (simp add: eval_row_def Let_def split: prod.splits)

lemma step_perf_vector:
  "perf_vector (eval_row loads llm s row) =
     perf_vector s @ [if passed (fst (sample_outcome loads llm (calls s))) then 1 else 0]"
  by (simp add: eval_row_def sample_outcome_def Let_def split: prod.splits)

lemma step_error_samples:
  "error_samples (eval_row loads llm s row) =
     error_samples s @ low_entry row (fst (sample_outcome loads llm (calls s)))"
  by (simp add: eval_row_def sample_outcome_def Let_def split: prod.splits)

lemma step_kind_correct:
  "kind_correct (stats (eval_row loads llm s row)) =
     (if passed (fst (sample_outcome loads llm (calls s)))
      then (kind_correct (stats s))(error_type row := kind_correct (stats s) (error_type row) + 1)
      else kind_correct (stats s))"
  by (simp add: eval_row_def sample_outcome_def Let_def split: prod.splits)

lemma step_level_correct:
  "level_correct (stats (eval_row loads llm s row)) =
     (if passed (fst (sample_outcome loads llm (calls s)))
      then (level_correct (stats s))(difficulty row := level_correct (stats s) (difficulty row) + 1)
      else level_correct (stats s))"
  by (simp add: eval_row_def sample_outcome_def Let_def split: prod.splits)

lemma step_format:
  "stat_format_correct (stats (eval_row loads llm s row)) =
     stat_format_correct (stats s) + (if format_ok (fst (sample_outcome loads llm (calls s))) then 1 else 0)"
  by (simp add: eval_row_def sample_outcome_def Let_def split: prod.splits)

lemma step_educational:
  "educational_value_sum (stats (eval_row loads llm s row)) =
     educational_value_sum (stats s) + guidance_of (fst (sample_outcome loads llm (calls s)))"
  by (simp add: eval_row_def sample_outcome_def Let_def split: prod.splits)

lemma step_total: "total (stats (eval_row loads llm s row)) = total (stats s)"
  by (simp add: eval_row_def sample_outcome_def Let_def split: prod.splits)

lemma length_outcomes: "length (outcomes loads llm c rows) = length rows"
  by (induction rows arbitrary: c) simp_all

lemma run_type_counts:
  "type_counts (run loads llm s rows) k = type_counts s k + count_kind k rows"
  by (induction rows arbitrary: s) (simp_all add: run_Nil run_Cons step_type_counts count_kind_def)

lemma run_difficulty_counts:
  "difficulty_counts (run loads llm s rows) d = difficulty_counts s d + count_level d rows"
  by (induction rows arbitrary: s) (simp_all add: run_Nil run_Cons step_difficulty_counts count_level_def)

lemma run_kind_correct:
  "kind_correct (stats (run loads llm s rows)) k =
     kind_correct (stats s) k + pass_kind k rows (outcomes loads llm (calls s) rows)"
  by (induction rows arbitrary: s)
     (simp_all add: run_Nil run_Cons step_kind_correct step_calls pass_kind_def)

lemma run_level_correct:
  "level_correct (stats (run loads llm s rows)) d =
     level_correct (stats s) d + pass_level d rows (outcomes loads llm (calls s) rows)"
  by (induction rows arbitrary: s)
     (simp_all add: run_Nil run_Cons step_level_correct step_calls pass_level_def)

lemma run_perf_vector:
  "perf_vector (run loads llm s rows) =
     perf_vector s @ map (\<lambda>out. if passed out then 1 else 0) (outcomes loads llm (calls s) rows)"
  by (induction rows arbitrary: s)
     (simp_all add: run_Nil run_Cons step_perf_vector step_calls)

lemma run_error_samples:
  "error_samples (run loads llm s rows) =
     error_samples s @ low_score_entries rows (outcomes loads llm (calls s) rows)"
  by (induction rows arbitrary: s)
     (simp_all add: run_Nil run_Cons step_error_samples step_calls low_score_entries_def)

lemma run_format:
  "stat_format_correct (stats (run loads llm s rows)) =
     stat_format_correct (stats s) + length (filter format_ok (outcomes loads llm (calls s) rows))"
  by (induction rows arbitrary: s)
     (simp_all add: run_Nil run_Cons step_format step_calls)

lemma run_educational:
  "educational_value_sum (stats (run loads llm s rows)) =
     educational_value_sum (stats s) + sum_list (map guidance_of (outcomes loads llm (calls s) rows))"
  by (induction rows arbitrary: s)
     (simp_all add: run_Nil run_Cons step_educational step_calls)

lemma pass_kind_le: "length outs = length rows \<Longrightarrow> pass_kind k rows outs \<le> count_kind k rows"
proof (induction rows arbitrary: outs)
  case Nil
  then show ?case by (simp add: pass_kind_def count_kind_def)
next
  case (Cons r rows)
  then obtain out outs' where o: "outs = out # outs'" by (cases outs) auto
  with Cons.prems have "length outs' = length rows" by simp
  from Cons.IH[OF this] show ?case by (simp add: o pass_kind_def count_kind_def)
qed

lemma pass_level_le: "length outs = length rows \<Longrightarrow> pass_level d rows outs \<le> count_level d rows"
proof (induction rows arbitrary: outs)
  case Nil
  then show ?case by (simp add: pass_level_def count_level_def)
next
  case (Cons r rows)
  then obtain out outs' where o: "outs = out # outs'" by (cases outs) auto
  with Cons.prems have "length outs' = length rows" by simp
  from Cons.IH[OF this] show ?case by (simp add: o pass_level_def count_level_def)
qed

lemma foldl_cond_add:
  "foldl (\<lambda>acc k. if P k then acc + f k else acc) (a::rat) xs = a + sum_list (map f (filter P xs))"
  by (induction xs arbitrary: a) simp_all

lemma initial_fields:
  "calls (initial_state n) = 0"
  "type_counts (initial_state n) k = 0"
  "difficulty_counts (initial_state n) d = 0"
  "kind_correct (stats (initial_state n)) k = 0"
  "level_correct (stats (initial_state n)) d = 0"
  "stat_format_correct (stats (initial_state n)) = 0"
  "educational_value_sum (stats (initial_state n)) = 0"
  "perf_vector (initial_state n) = []"
  "error_samples (initial_state n) = []"
  by (simp_all add: initial_state_def)

lemma final_type_counts: "type_counts (final_state loads llm rows) k = count_kind k rows"
  by (simp add: final_state_def run_type_counts initial_fields)

lemma final_difficulty_counts: "difficulty_counts (final_state loads llm rows) d = count_level d rows"
  by (simp add: final_state_def run_difficulty_counts initial_fields)

lemma final_kind_correct:
  "kind_correct (stats (final_state loads llm rows)) k = pass_kind k rows (outcomes loads llm 0 rows)"
  by (simp add: final_state_def run_kind_correct initial_fields)

lemma final_level_correct:
  "level_correct (stats (final_state loads llm rows)) d = pass_level d rows (outcomes loads llm 0 rows)"
  by (simp add: final_state_def run_level_correct initial_fields)

lemma final_perf_vector:
  "perf_vector (final_state loads llm rows) =
     map (\<lambda>out. if passed out then 1 else 0) (outcomes loads llm 0 rows)"
  by (simp add: final_state_def run_perf_vector initial_fields)

lemma final_error_samples:
  "error_samples (final_state loads llm rows) = low_score_entries rows (outcomes loads llm 0 rows)"
  by (simp add: final_state_def run_error_samples initial_fields)

lemma final_format:
  "stat_format_correct (stats (final_state loads llm rows)) =
     length (filter format_ok (outcomes loads llm 0 rows))"
  by (simp add: final_state_def run_format initial_fields)

lemma final_educational:
  "educational_value_sum (stats (final_state loads llm rows)) =
     sum_list (map guidance_of (outcomes loads llm 0 rows))"
  by (simp add: final_state_def run_educational initial_fields)

lemma error_detection_of_final:
  "error_detection_of (final_state loads llm rows) =
     (\<Sum>k\<leftarrow>filter (\<lambda>k. count_kind k rows > 0) error_types.
        weight k * (of_nat (pass_kind k rows (outcomes loads llm 0 rows)) / of_nat (count_kind k rows)))"
  by (simp add: error_detection_of_def foldl_cond_add final_type_counts final_kind_correct mult.commute)

lemma difficulty_of_final:
  "difficulty_of (final_state loads llm rows) =
     (\<Sum>d\<leftarrow>filter (\<lambda>d. count_level d rows > 0) difficulty_levels.
        (of_nat (pass_level d rows (outcomes loads llm 0 rows)) / of_nat (count_level d rows)) / 3)"
  by (simp add: difficulty_of_def foldl_cond_add final_difficulty_counts final_level_correct)

lemma evaluate_nonempty:
  assumes "rows \<noteq> []"
  shows "evaluate loads llm rows =
     Inr (error_detection_of (final_state loads llm rows) * (2/5)
            + educational_value_sum (stats (final_state loads llm rows)) / of_nat (length rows) * (3/10)
            + of_nat (stat_format_correct (stats (final_state loads llm rows))) / of_nat (length rows) * (1/5)
            + difficulty_of (final_state loads llm rows) * (1/10),
          \<lparr>metrics =
             \<lparr>overall_score =
                 error_detection_of (final_state loads llm rows) * (2/5)
                 + educational_value_sum (stats (final_state loads llm rows)) / of_nat (length rows) * (3/10)
                 + of_nat (stat_format_correct (stats (final_state loads llm rows))) / of_nat (length rows) * (1/5)
                 + difficulty_of (final_state loads llm rows) * (1/10),
              error_detection = error_detection_of (final_state loads llm rows),
              m_educational_value =
                 educational_value_sum (stats (final_state loads llm rows)) / of_nat (length rows),
              format_compliance =
                 of_nat (stat_format_correct (stats (final_state loads llm rows))) / of_nat (length rows),
              difficulty_adaptation = difficulty_of (final_state loads llm rows),
              m_error_samples = take 20 (error_samples (final_state loads llm rows)),
              m_stats = stats (final_state loads llm rows)\<rparr>,
           ev_perf_vector = perf_vector (final_state loads llm rows),
           fp_samples = error_samples (final_state loads llm rows),
           ev_error_samples = error_samples (final_state loads llm rows)\<rparr>)"
  using assms by (simp add: evaluate_def final_state_def run_def Let_def)

section \<open>Exhausted retries\<close>

lemma generate_response_accepted:
  "llm c = Returns r \<Longrightarrow> accepted r \<Longrightarrow> generate_response llm (Suc k) c resp = (r, Suc c)"
  by simp

lemma generate_response_rejected:
  "rejected (llm c) \<Longrightarrow> \<not> accepted resp \<Longrightarrow>
     \<exists>resp'. \<not> accepted resp' \<and> generate_response llm (Suc k) c resp = generate_response llm k (Suc c) resp'"
  by (auto simp: rejected_def split: reply.splits)

lemma generate_response_exhausted:
  assumes "exhausted llm c"
  shows "\<not> accepted (fst (generate_response llm max_retries c None))"
    and "snd (generate_response llm max_retries c None) = c + 3"
proof -
  from assms have r: "rejected (llm c)" "rejected (llm (Suc c))" "rejected (llm (Suc (Suc c)))"
    by (simp_all add: exhausted_def)
  have n: "\<not> accepted None" by (simp add: accepted_def)
  have m: "max_retries = Suc (Suc (Suc 0))" by (simp add: max_retries_def eval_nat_numeral)
  from generate_response_rejected[where llm = llm and c = c and resp = None and k = "Suc (Suc 0)", OF r(1) n] obtain r1 where
    r1: "\<not> accepted r1"
        "generate_response llm (Suc (Suc (Suc 0))) c None = generate_response llm (Suc (Suc 0)) (Suc c) r1"
    by blast
  from generate_response_rejected[where llm = llm and c = "Suc c" and resp = r1 and k = "Suc 0", OF r(2) r1(1)] obtain r2 where
    r2: "\<not> accepted r2"
        "generate_response llm (Suc (Suc 0)) (Suc c) r1 = generate_response llm (Suc 0) (Suc (Suc c)) r2"
    by blast
  from generate_response_rejected[where llm = llm and c = "Suc (Suc c)" and resp = r2 and k = 0, OF r(3) r2(1)] obtain r3 where
    r3: "\<not> accepted r3"
        "generate_response llm (Suc 0) (Suc (Suc c)) r2 = generate_response llm 0 (Suc (Suc (Suc c))) r3"
    by blast
  have "generate_response llm max_retries c None = (r3, Suc (Suc (Suc c)))"
    using r1(2) r2(2) r3(2) by (simp add: m)
  then show "\<not> accepted (fst (generate_response llm max_retries c None))"
    and "snd (generate_response llm max_retries c None) = c + 3"
    using r3(1) by simp_all
qed

lemma sample_outcome_exhausted:
  assumes "exhausted llm c"
  shows "sample_outcome loads llm c = (NoResponse, c + 3)"
proof -
  from generate_response_exhausted[OF assms] obtain resp where
    "generate_response llm max_retries c None = (resp, c + 3)" and "\<not> accepted resp"
    by (cases "generate_response llm max_retries c None") auto
  then show ?thesis by (simp add: sample_outcome_def)
qed

lemma sample_outcome_graded:
  assumes "llm c = Returns (Some r)" and "r \<noteq> []" and "\<not> blank r"
  shows "sample_outcome loads llm c =
           (Graded r (fst (evaluate_single_response loads (llm (Suc c)) r))
                     (snd (evaluate_single_response loads (llm (Suc c)) r)), Suc (Suc c))"
proof -
  have a: "accepted (Some r)" using assms(2,3) by (simp add: accepted_def)
  have "generate_response llm max_retries c None = (Some r, Suc c)"
    using assms(1) a by (simp add: max_retries_def eval_nat_numeral)
  then show ?thesis using a by (simp add: sample_outcome_def split: prod.splits)
qed

text \<open>
  Claim C2. (amended) When the three attempts of the response generator for a test case all
  raise or return an empty or blank reply, grading is skipped and nothing is raised: the
  grader is not invoked (the run has made exactly three invocations more), the test case
  is counted in its kind and difficulty totals and adds a 0 to the pass vector, and the
  total score, the statistics and the list of low-score samples are left as they were, so
  no sample record and no failure reason is emitted for it.
\<close>

theorem exhausted_retries_skip_grading:
  assumes "exhausted llm (calls s)"
  shows "eval_row loads llm s row =
           s\<lparr>type_counts := (type_counts s)(error_type row := type_counts s (error_type row) + 1),
             difficulty_counts :=
               (difficulty_counts s)(difficulty row := difficulty_counts s (difficulty row) + 1),
             perf_vector := perf_vector s @ [0],
             calls := calls s + 3\<rparr>
         \<and> sample_outcome loads llm (calls s) = (NoResponse, calls s + 3)"
proof -
  from generate_response_exhausted[OF assms] obtain resp where
    g: "generate_response llm max_retries (calls s) None = (resp, calls s + 3)" and na: "\<not> accepted resp"
    by (cases "generate_response llm max_retries (calls s) None") auto
  have "eval_row loads llm s row =
           s\<lparr>type_counts := (type_counts s)(error_type row := type_counts s (error_type row) + 1),
             difficulty_counts :=
               (difficulty_counts s)(difficulty row := difficulty_counts s (difficulty row) + 1),
             perf_vector := perf_vector s @ [0],
             calls := calls s + 3\<rparr>"
    using g na by (simp add: eval_row_def Let_def)
  with sample_outcome_exhausted[OF assms] show ?thesis by simp
qed

lemma silent_exhausted: "exhausted (scripted silent_replies) 0"
  by (simp add: exhausted_def rejected_def scripted_def silent_replies_def accepted_def blank_def
      isspace_def str_def)

theorem exhausted_retries_skip_grading_witness:
  "exhausted (scripted silent_replies) (calls (initial_state 1))
   \<and> perf_vector (eval_row no_json (scripted silent_replies) (initial_state 1) (case_of Syntax Beginner ''a'')) = [0]
   \<and> error_samples (eval_row no_json (scripted silent_replies) (initial_state 1) (case_of Syntax Beginner ''a'')) = []
   \<and> total_score (eval_row no_json (scripted silent_replies) (initial_state 1) (case_of Syntax Beginner ''a'')) = 0
   \<and> calls (eval_row no_json (scripted silent_replies) (initial_state 1) (case_of Syntax Beginner ''a'')) = 3"
proof -
  have h: "exhausted (scripted silent_replies) (calls (initial_state 1))"
    using silent_exhausted by (simp add: initial_state_def)
  from exhausted_retries_skip_grading[OF h, of no_json "case_of Syntax Beginner ''a''"] h
  show ?thesis by (simp add: initial_state_def)
qed

lemma silent_outcomes: "outcomes loads (scripted silent_replies) 0 one_case = [NoResponse]"
  using sample_outcome_exhausted[OF silent_exhausted, of loads] by (simp add: one_case_def)

lemma one_case_nonempty: "one_case \<noteq> []"
  by (simp add: one_case_def)

text \<open>
  Claim C2. (counterexample) One test case, three failed attempts: the run returns a report
  whose pass vector is [0] and whose three lists of sample records are empty, so there is
  no record with a composite score of 0 and a failure reason for that test case.
\<close>

theorem no_response_emits_no_sample_record:
  "\<not> isl (evaluate no_json (scripted silent_replies) one_case)
   \<and> ev_perf_vector (snd (projr (evaluate no_json (scripted silent_replies) one_case))) = [0]
   \<and> ev_error_samples (snd (projr (evaluate no_json (scripted silent_replies) one_case))) = []
   \<and> fp_samples (snd (projr (evaluate no_json (scripted silent_replies) one_case))) = []
   \<and> m_error_samples (metrics (snd (projr (evaluate no_json (scripted silent_replies) one_case)))) = []"
proof -
  have low: "low_score_entries one_case [NoResponse] = []"
    by (simp add: low_score_entries_def one_case_def)
  show ?thesis
    by (simp add: evaluate_nonempty[OF one_case_nonempty] final_perf_vector final_error_samples
        silent_outcomes low)
qed

section \<open>Bounds on the scores\<close>

lemma ratio_bounds:
  "p \<le> c \<Longrightarrow> 0 \<le> (of_nat p / of_nat c :: rat) \<and> (of_nat p / of_nat c :: rat) \<le> 1"
  by (cases "c = 0") (simp_all add: divide_le_eq_1)

lemma sum_filter_bounds:
  fixes f g :: "'a \<Rightarrow> rat"
  assumes "\<And>x. x \<in> set xs \<Longrightarrow> 0 \<le> f x \<and> f x \<le> g x"
  shows "0 \<le> sum_list (map f (filter P xs)) \<and> sum_list (map f (filter P xs)) \<le> sum_list (map g xs)"
  using assms
proof (induction xs)
  case Nil
  show ?case by simp
next
  case (Cons x xs)
  then have ih: "0 \<le> sum_list (map f (filter P xs)) \<and> sum_list (map f (filter P xs)) \<le> sum_list (map g xs)"
    by simp
  from Cons.prems[of x] have x: "0 \<le> f x" "f x \<le> g x" by simp_all
  then have gx: "0 \<le> g x" by linarith
  show ?case
  proof (cases "P x")
    case True
    then show ?thesis using ih x by (simp add: add_mono)
  next
    case False
    then show ?thesis using ih gx by (simp add: add_increasing)
  qed
qed

lemma weight_bounds: "0 \<le> weight k"
  by (cases k) simp_all

lemma error_detection_bounds:
  "0 \<le> error_detection_of (final_state loads llm rows) \<and> error_detection_of (final_state loads llm rows) \<le> 1"
proof -
  let ?outs = "outcomes loads llm 0 rows"
  let ?f = "\<lambda>k. weight k * (of_nat (pass_kind k rows ?outs) / of_nat (count_kind k rows))"
  have "0 \<le> ?f k \<and> ?f k \<le> weight k" for k
  proof -
    have "pass_kind k rows ?outs \<le> count_kind k rows"
      by (rule pass_kind_le) (simp add: length_outcomes)
    from ratio_bounds[OF this]
    have r: "0 \<le> (of_nat (pass_kind k rows ?outs) / of_nat (count_kind k rows) :: rat)"
            "(of_nat (pass_kind k rows ?outs) / of_nat (count_kind k rows) :: rat) \<le> 1"
      by simp_all
    have "0 \<le> ?f k" using weight_bounds[of k] r(1) by (rule mult_nonneg_nonneg)
    moreover have "?f k \<le> weight k * 1" using r(2) weight_bounds[of k] by (rule mult_left_mono)
    ultimately show ?thesis by simp
  qed
  then have "0 \<le> sum_list (map ?f (filter (\<lambda>k. 0 < count_kind k rows) error_types))
     \<and> sum_list (map ?f (filter (\<lambda>k. 0 < count_kind k rows) error_types)) \<le> sum_list (map weight error_types)"
    by (intro sum_filter_bounds) simp
  moreover have "sum_list (map weight error_types) = 1"
    by (simp add: error_types_def)
  ultimately show ?thesis by (simp add: error_detection_of_final)
qed

lemma difficulty_bounds:
  "0 \<le> difficulty_of (final_state loads llm rows) \<and> difficulty_of (final_state loads llm rows) \<le> 1"
proof -
  let ?outs = "outcomes loads llm 0 rows"
  let ?f = "\<lambda>d. (of_nat (pass_level d rows ?outs) / of_nat (count_level d rows)) / (3::rat)"
  have "0 \<le> ?f d \<and> ?f d \<le> 1/3" for d
  proof -
    have "pass_level d rows ?outs \<le> count_level d rows"
      by (rule pass_level_le) (simp add: length_outcomes)
    from ratio_bounds[OF this] show ?thesis by simp
  qed
  then have "0 \<le> sum_list (map ?f (filter (\<lambda>d. 0 < count_level d rows) difficulty_levels))
     \<and> sum_list (map ?f (filter (\<lambda>d. 0 < count_level d rows) difficulty_levels))
         \<le> sum_list (map (\<lambda>d. 1/3) difficulty_levels)"
    by (intro sum_filter_bounds) simp
  moreover have "sum_list (map (\<lambda>d. 1/3::rat) difficulty_levels) = 1"
    by (simp add: difficulty_levels_def)
  ultimately show ?thesis by (simp add: difficulty_of_final)
qed

lemma format_bounds:
  assumes "rows \<noteq> []"
  shows "0 \<le> (of_nat (stat_format_correct (stats (final_state loads llm rows))) / of_nat (length rows) :: rat)
       \<and> (of_nat (stat_format_correct (stats (final_state loads llm rows))) / of_nat (length rows) :: rat) \<le> 1"
proof -
  have "length (filter format_ok (outcomes loads llm 0 rows)) \<le> length rows"
    by (metis length_filter_le length_outcomes)
  from ratio_bounds[OF this] show ?thesis by (simp add: final_format)
qed

lemma guidance_sum_bounds:
  "list_all (\<lambda>out. 0 \<le> guidance_of out \<and> guidance_of out \<le> 1) outs \<Longrightarrow>
     0 \<le> sum_list (map guidance_of outs) \<and> sum_list (map guidance_of outs) \<le> of_nat (length outs)"
  by (induction outs) auto

lemma educational_bounds:
  assumes "rows \<noteq> []"
      and "list_all (\<lambda>out. 0 \<le> guidance_of out \<and> guidance_of out \<le> 1) (outcomes loads llm 0 rows)"
  shows "0 \<le> educational_value_sum (stats (final_state loads llm rows)) / of_nat (length rows)
       \<and> educational_value_sum (stats (final_state loads llm rows)) / of_nat (length rows) \<le> 1"
proof -
  from guidance_sum_bounds[OF assms(2)]
  have b: "0 \<le> sum_list (map guidance_of (outcomes loads llm 0 rows))"
          "sum_list (map guidance_of (outcomes loads llm 0 rows)) \<le> of_nat (length rows)"
    by (simp_all add: length_outcomes)
  have n: "0 < (of_nat (length rows) :: rat)" using assms(1) by simp
  show ?thesis using b n by (simp add: final_educational divide_le_eq_1)
qed

text \<open>
  Claim C3. (amended) For every run on a non-empty corpus \<^verbatim>\<open>evaluate\<close> returns, the returned
  score is the overall score of the report, and the error-detection, format and difficulty
  scores lie in [0,1]. The educational score lies in [0,1] when every guidance value
  obtained from the grader does, and the overall score lies in [0,1] when the educational
  score does.
\<close>

theorem scores_in_unit_interval:
  assumes "test_data \<noteq> []"
  shows "\<exists>score ev. evaluate loads llm test_data = Inr (score, ev)
           \<and> score = overall_score (metrics ev)
           \<and> 0 \<le> error_detection (metrics ev) \<and> error_detection (metrics ev) \<le> 1
           \<and> 0 \<le> format_compliance (metrics ev) \<and> format_compliance (metrics ev) \<le> 1
           \<and> 0 \<le> difficulty_adaptation (metrics ev) \<and> difficulty_adaptation (metrics ev) \<le> 1
           \<and> (list_all (\<lambda>out. 0 \<le> guidance_of out \<and> guidance_of out \<le> 1)
                 (outcomes loads llm 0 test_data) \<longrightarrow>
                0 \<le> m_educational_value (metrics ev) \<and> m_educational_value (metrics ev) \<le> 1)
           \<and> (0 \<le> m_educational_value (metrics ev) \<and> m_educational_value (metrics ev) \<le> 1 \<longrightarrow>
                0 \<le> overall_score (metrics ev) \<and> overall_score (metrics ev) \<le> 1)"
proof -
  let ?s = "final_state loads llm test_data"
  define a where "a = error_detection_of ?s"
  define b where "b = educational_value_sum (stats ?s) / of_nat (length test_data)"
  define c where "c = (of_nat (stat_format_correct (stats ?s)) / of_nat (length test_data) :: rat)"
  define d where "d = difficulty_of ?s"
  have ba: "0 \<le> a \<and> a \<le> 1" unfolding a_def by (rule error_detection_bounds)
  have bc: "0 \<le> c \<and> c \<le> 1" unfolding c_def by (rule format_bounds[OF assms])
  have bd: "0 \<le> d \<and> d \<le> 1" unfolding d_def by (rule difficulty_bounds)
  have bb: "list_all (\<lambda>out. 0 \<le> guidance_of out \<and> guidance_of out \<le> 1)
                 (outcomes loads llm 0 test_data) \<longrightarrow> 0 \<le> b \<and> b \<le> 1"
    unfolding b_def using educational_bounds[OF assms] by blast
  have bo: "0 \<le> b \<and> b \<le> 1 \<longrightarrow>
          0 \<le> a * (2/5) + b * (3/10) + c * (1/5) + d * (1/10)
          \<and> a * (2/5) + b * (3/10) + c * (1/5) + d * (1/10) \<le> 1"
    using ba bc bd by simp
  show ?thesis
    using ba bb bc bd bo
    unfolding evaluate_nonempty[OF assms] a_def b_def c_def d_def
    by simp
qed

section \<open>The dimension scores and the low-score samples\<close>

lemma passed_score_of: "passed out = (case score_of out of Some s \<Rightarrow> 7/10 \<le> s | None \<Rightarrow> False)"
  by (cases out) simp_all

text \<open>
  Claim C7. On a non-empty corpus the error-detection score is the sum, over the kinds
  that have at least one sample, of the kind's weight times the number of its samples
  graded at 0.7 or more, divided by the number of its samples; the weights are 0.25, 0.35,
  0.25 and 0.15 for syntax, runtime, logical and conceptual, and nothing is renormalised
  when a kind is absent. For four samples, one per kind in that order, with composite
  scores 0.9, 0.3, 0.95 and 0.6, the score is 0.25*1 + 0.35*0 + 0.25*1 + 0.15*0 = 0.5.
\<close>

theorem error_detection_weighted_pass_rate:
  "(test_data \<noteq> [] \<longrightarrow>
      (\<exists>score ev. evaluate loads llm test_data = Inr (score, ev)
         \<and> error_detection (metrics ev) =
             (\<Sum>k\<leftarrow>filter (\<lambda>k. 0 < count_kind k test_data) error_types.
                weight k * (of_nat (pass_kind k test_data (outcomes loads llm 0 test_data))
                            / of_nat (count_kind k test_data)))))
   \<and> error_types = [Syntax, Runtime, Logical, Conceptual]
   \<and> map weight error_types = [1/4, 7/20, 1/4, 3/20]
   \<and> (map error_type test_data = [Syntax, Runtime, Logical, Conceptual]
        \<and> map score_of (outcomes loads llm 0 test_data)
            = [Some (9/10), Some (3/10), Some (19/20), Some (3/5)] \<longrightarrow>
      (\<exists>score ev. evaluate loads llm test_data = Inr (score, ev)
         \<and> error_detection (metrics ev) = 1/4 * 1 + 7/20 * 0 + 1/4 * 1 + 3/20 * 0
         \<and> error_detection (metrics ev) = 1/2))"
proof (intro conjI impI)
  assume ne: "test_data \<noteq> []"
  show "\<exists>score ev. evaluate loads llm test_data = Inr (score, ev)
         \<and> error_detection (metrics ev) =
             (\<Sum>k\<leftarrow>filter (\<lambda>k. 0 < count_kind k test_data) error_types.
                weight k * (of_nat (pass_kind k test_data (outcomes loads llm 0 test_data))
                            / of_nat (count_kind k test_data)))"
    unfolding evaluate_nonempty[OF ne] by (simp add: error_detection_of_final)
next
  show "error_types = [Syntax, Runtime, Logical, Conceptual]" by (simp add: error_types_def)
next
  show "map weight error_types = [1/4, 7/20, 1/4, 3/20]" by (simp add: error_types_def)
next
  assume h: "map error_type test_data = [Syntax, Runtime, Logical, Conceptual]
        \<and> map score_of (outcomes loads llm 0 test_data)
            = [Some (9/10), Some (3/10), Some (19/20), Some (3/5)]"
  then obtain r1 r2 r3 r4 where rows: "test_data = [r1, r2, r3, r4]"
    and k: "error_type r1 = Syntax" "error_type r2 = Runtime" "error_type r3 = Logical"
           "error_type r4 = Conceptual"
    by (auto simp: map_eq_Cons_conv)
  from h obtain o1 o2 o3 o4 where outs: "outcomes loads llm 0 test_data = [o1, o2, o3, o4]"
    and sc: "score_of o1 = Some (9/10)" "score_of o2 = Some (3/10)" "score_of o3 = Some (19/20)"
            "score_of o4 = Some (3/5)"
    by (auto simp: map_eq_Cons_conv)
  have p: "passed o1" "\<not> passed o2" "passed o3" "\<not> passed o4"
    using sc by (simp_all add: passed_score_of)
  have ne: "test_data \<noteq> []" using rows by simp
  have c: "count_kind Syntax test_data = 1" "count_kind Runtime test_data = 1"
          "count_kind Logical test_data = 1" "count_kind Conceptual test_data = 1"
    using k by (simp_all add: rows count_kind_def)
  have ps: "pass_kind Syntax test_data [o1, o2, o3, o4] = 1"
           "pass_kind Runtime test_data [o1, o2, o3, o4] = 0"
           "pass_kind Logical test_data [o1, o2, o3, o4] = 1"
           "pass_kind Conceptual test_data [o1, o2, o3, o4] = 0"
    using k p by (simp_all add: rows pass_kind_def)
  have "error_detection_of (final_state loads llm test_data) = 1/2"
    by (simp add: error_detection_of_final outs c ps error_types_def)
  then show "\<exists>score ev. evaluate loads llm test_data = Inr (score, ev)
         \<and> error_detection (metrics ev) = 1/4 * 1 + 7/20 * 0 + 1/4 * 1 + 3/20 * 0
         \<and> error_detection (metrics ev) = 1/2"
    unfolding evaluate_nonempty[OF ne] by simp
qed

text \<open>
  Claim C9. On a non-empty corpus the difficulty score is the sum, over the difficulty
  levels that have at least one sample, of the level's pass rate divided by 3. The divisor
  is 3 whatever levels are present: when every sample has the same level, the score is
  that level's pass rate divided by 3.
\<close>

theorem difficulty_score_divides_by_three:
  "(test_data \<noteq> [] \<longrightarrow>
      (\<exists>score ev. evaluate loads llm test_data = Inr (score, ev)
         \<and> difficulty_adaptation (metrics ev) =
             (\<Sum>d\<leftarrow>filter (\<lambda>d. 0 < count_level d test_data) difficulty_levels.
                (of_nat (pass_level d test_data (outcomes loads llm 0 test_data))
                   / of_nat (count_level d test_data)) / 3)))
   \<and> (test_data \<noteq> [] \<and> list_all (\<lambda>r. difficulty r = d) test_data \<longrightarrow>
      (\<exists>score ev. evaluate loads llm test_data = Inr (score, ev)
         \<and> difficulty_adaptation (metrics ev) =
             (of_nat (pass_level d test_data (outcomes loads llm 0 test_data))
                / of_nat (length test_data)) / 3))"
proof (intro conjI impI)
  assume ne: "test_data \<noteq> []"
  show "\<exists>score ev. evaluate loads llm test_data = Inr (score, ev)
         \<and> difficulty_adaptation (metrics ev) =
             (\<Sum>d\<leftarrow>filter (\<lambda>d. 0 < count_level d test_data) difficulty_levels.
                (of_nat (pass_level d test_data (outcomes loads llm 0 test_data))
                   / of_nat (count_level d test_data)) / 3)"
    unfolding evaluate_nonempty[OF ne] by (simp add: difficulty_of_final)
next
  assume h: "test_data \<noteq> [] \<and> list_all (\<lambda>r. difficulty r = d) test_data"
  then have ne: "test_data \<noteq> []" and all: "list_all (\<lambda>r. difficulty r = d) test_data" by simp_all
  have same: "count_level d test_data = length test_data"
    using all by (simp add: count_level_def list_all_iff)
  have other: "count_level d' test_data = 0" if "d' \<noteq> d" for d'
    using all that by (auto simp: count_level_def list_all_iff filter_empty_conv)
  have pos: "0 < length test_data" using ne by simp
  have "filter (\<lambda>d'. 0 < count_level d' test_data) difficulty_levels = [d]"
    using same other pos by (cases d) (simp_all add: difficulty_levels_def)
  then have "difficulty_of (final_state loads llm test_data) =
      (of_nat (pass_level d test_data (outcomes loads llm 0 test_data)) / of_nat (length test_data)) / 3"
    by (simp add: difficulty_of_final same)
  then show "\<exists>score ev. evaluate loads llm test_data = Inr (score, ev)
         \<and> difficulty_adaptation (metrics ev) =
             (of_nat (pass_level d test_data (outcomes loads llm 0 test_data))
                / of_nat (length test_data)) / 3"
    unfolding evaluate_nonempty[OF ne] by simp
qed

lemma low_entry_scores:
  "map es_score (low_entry row out) =
     filter (\<lambda>s. s < 17/20) (case score_of out of Some s \<Rightarrow> [s] | None \<Rightarrow> [])"
  by (cases out) simp_all

lemma low_score_entries_scores:
  "length rows = length outs \<Longrightarrow>
     map es_score (low_score_entries rows outs) =
       filter (\<lambda>s. s < 17/20)
         (concat (map (\<lambda>out. case score_of out of Some s \<Rightarrow> [s] | None \<Rightarrow> []) outs))"
proof (induction rows outs rule: list_induct2)
  case Nil
  show ?case by (simp add: low_score_entries_def)
next
  case (Cons r rows out outs)
  then show ?case by (simp add: low_score_entries_def low_entry_scores)
qed

text \<open>
  Claim C5. (amended) On a non-empty corpus the test cases that received a response and
  were graded below 0.85, and only they, are collected, each with its input, response,
  expected outcome, kind, difficulty, score and failure reason, in evaluation order: the
  scores of the collection are the scores below 0.85 among those of the graded test cases,
  in that order, and a test case whose response generator was exhausted is not collected.
  The list under the report's metrics is the first 20 entries of the collection; the two
  lists at the top of the evidence are the whole collection.
\<close>

theorem low_score_samples_collected:
  assumes "test_data \<noteq> []"
  shows "\<exists>score ev. evaluate loads llm test_data = Inr (score, ev)
           \<and> ev_error_samples ev = low_score_entries test_data (outcomes loads llm 0 test_data)
           \<and> map es_score (ev_error_samples ev) =
               filter (\<lambda>s. s < 17/20)
                 (concat (map (\<lambda>out. case score_of out of Some s \<Rightarrow> [s] | None \<Rightarrow> [])
                            (outcomes loads llm 0 test_data)))
           \<and> fp_samples ev = ev_error_samples ev
           \<and> m_error_samples (metrics ev) = take 20 (ev_error_samples ev)
           \<and> length (m_error_samples (metrics ev)) \<le> 20"
  unfolding evaluate_nonempty[OF assms]
  by (simp add: final_error_samples low_score_entries_scores length_outcomes)

section \<open>Two example runs\<close>

lemmas regex_defs = str_def ci_eq_def metric_match_at_def is_sep_def isspace_def number_match_def
  is_digit_def digit_value_def decimal_zeros_def py_float_def int_of_digits_def
  metric_or_default_def extract_metrics_manually_def

lemma judge_fallback:
  assumes "re_search_braces t = None" and "t \<noteq> []"
  shows "evaluate_single_response loads (Returns (Some t)) r =
           score_metrics (check_format r) (extract_metrics_manually t)"
  using assms by (simp add: evaluate_single_response_def parse_metrics_def)

lemma score_metrics_floats:
  "score_metrics fc (JObj [(str ''accuracy'', JFloat a), (str ''guidance'', JFloat g),
                           (str ''clarity'', JFloat c)])
     = (a * (1/2) + g * (3/10) + c * (1/5),
        \<lparr>format_correct = fc, educational_value = g, failure_reason = Value (JStr [])\<rparr>)"
  by (simp add: score_metrics_def composite_score_def weighted_term_def dict_get_def str_def)

lemma extract_1:
  "extract_metrics_manually (str ''accuracy: 0.9, guidance: 0.9, clarity: 0.9'') =
     JObj [(str ''accuracy'', JFloat (9/10)), (str ''guidance'', JFloat (9/10)),
           (str ''clarity'', JFloat (9/10))]"
  by (simp add: regex_defs)

lemma extract_2:
  "extract_metrics_manually (str ''Accuracy 0.3 Guidance 0.3 Clarity 0.3'') =
     JObj [(str ''accuracy'', JFloat (3/10)), (str ''guidance'', JFloat (3/10)),
           (str ''clarity'', JFloat (3/10))]"
  by (simp add: regex_defs)

lemma extract_3:
  "extract_metrics_manually (str ''accuracy 0.95 guidance 0.95 clarity 0.95'') =
     JObj [(str ''accuracy'', JFloat (19/20)), (str ''guidance'', JFloat (19/20)),
           (str ''clarity'', JFloat (19/20))]"
  by (simp add: regex_defs)

lemma extract_4:
  "extract_metrics_manually (str ''accuracy 0.6 guidance 0.6 clarity 0.6'') =
     JObj [(str ''accuracy'', JFloat (3/5)), (str ''guidance'', JFloat (3/5)),
           (str ''clarity'', JFloat (3/5))]"
  by (simp add: regex_defs)

lemma extract_inflated:
  "extract_metrics_manually (str ''guidance: 7'') =
     JObj [(str ''accuracy'', JFloat (1/2)), (str ''guidance'', JFloat 7),
           (str ''clarity'', JFloat (1/2))]"
  by (simp add: regex_defs)

text \<open>A digit of another script is read as Python reads it: U+FF17 is a seven.\<close>

lemma extract_fullwidth:
  "extract_metrics_manually (str ''guidance: '' @ [0xFF17]) =
     JObj [(str ''accuracy'', JFloat (1/2)), (str ''guidance'', JFloat 7),
           (str ''clarity'', JFloat (1/2))]"
  by (simp add: regex_defs)

lemma judge_1:
  "evaluate_single_response loads (Returns (Some (str ''accuracy: 0.9, guidance: 0.9, clarity: 0.9''))) r
     = (9/10, \<lparr>format_correct = check_format r, educational_value = 9/10,
               failure_reason = Value (JStr [])\<rparr>)"
proof -
  have "re_search_braces (str ''accuracy: 0.9, guidance: 0.9, clarity: 0.9'') = None"
    by (simp add: str_def brace_match_at_def)
  moreover have "str ''accuracy: 0.9, guidance: 0.9, clarity: 0.9'' \<noteq> []" by (simp add: str_def)
  ultimately show ?thesis by (simp add: judge_fallback extract_1 score_metrics_floats)
qed

lemma judge_2:
  "evaluate_single_response loads (Returns (Some (str ''Accuracy 0.3 Guidance 0.3 Clarity 0.3''))) r
     = (3/10, \<lparr>format_correct = check_format r, educational_value = 3/10,
               failure_reason = Value (JStr [])\<rparr>)"
proof -
  have "re_search_braces (str ''Accuracy 0.3 Guidance 0.3 Clarity 0.3'') = None"
    by (simp add: str_def brace_match_at_def)
  moreover have "str ''Accuracy 0.3 Guidance 0.3 Clarity 0.3'' \<noteq> []" by (simp add: str_def)
  ultimately show ?thesis by (simp add: judge_fallback extract_2 score_metrics_floats)
qed

lemma judge_3:
  "evaluate_single_response loads (Returns (Some (str ''accuracy 0.95 guidance 0.95 clarity 0.95''))) r
     = (19/20, \<lparr>format_correct = check_format r, educational_value = 19/20,
               failure_reason = Value (JStr [])\<rparr>)"
proof -
  have "re_search_braces (str ''accuracy 0.95 guidance 0.95 clarity 0.95'') = None"
    by (simp add: str_def brace_match_at_def)
  moreover have "str ''accuracy 0.95 guidance 0.95 clarity 0.95'' \<noteq> []" by (simp add: str_def)
  ultimately show ?thesis by (simp add: judge_fallback extract_3 score_metrics_floats)
qed

lemma judge_4:
  "evaluate_single_response loads (Returns (Some (str ''accuracy 0.6 guidance 0.6 clarity 0.6''))) r
     = (3/5, \<lparr>format_correct = check_format r, educational_value = 3/5,
               failure_reason = Value (JStr [])\<rparr>)"
proof -
  have "re_search_braces (str ''accuracy 0.6 guidance 0.6 clarity 0.6'') = None"
    by (simp add: str_def brace_match_at_def)
  moreover have "str ''accuracy 0.6 guidance 0.6 clarity 0.6'' \<noteq> []" by (simp add: str_def)
  ultimately show ?thesis by (simp add: judge_fallback extract_4 score_metrics_floats)
qed

lemma judge_inflated:
  "evaluate_single_response loads (Returns (Some (str ''guidance: 7''))) r
     = (49/20, \<lparr>format_correct = check_format r, educational_value = 7,
               failure_reason = Value (JStr [])\<rparr>)"
proof -
  have "re_search_braces (str ''guidance: 7'') = None"
    by (simp add: str_def brace_match_at_def)
  moreover have "str ''guidance: 7'' \<noteq> []" by (simp add: str_def)
  ultimately show ?thesis by (simp add: judge_fallback extract_inflated score_metrics_floats)
qed

lemma four_script:
  "scripted four_replies 0 = Returns (Some (str ''def f: Error''))"
  "scripted four_replies 1 = Returns (Some (str ''accuracy: 0.9, guidance: 0.9, clarity: 0.9''))"
  "scripted four_replies 2 = Returns (Some (str ''no''))"
  "scripted four_replies 3 = Returns (Some (str ''Accuracy 0.3 Guidance 0.3 Clarity 0.3''))"
  "scripted four_replies 4 = Returns (Some (str ''ok''))"
  "scripted four_replies 5 = Returns (Some (str ''accuracy 0.95 guidance 0.95 clarity 0.95''))"
  "scripted four_replies 6 = Returns (Some (str ''ok''))"
  "scripted four_replies 7 = Returns (Some (str ''accuracy 0.6 guidance 0.6 clarity 0.6''))"
  "scripted four_replies (Suc 0) = Returns (Some (str ''accuracy: 0.9, guidance: 0.9, clarity: 0.9''))"
  by (simp_all add: scripted_def four_replies_def)

lemma responses_usable:
  "str ''def f: Error'' \<noteq> []" "\<not> blank (str ''def f: Error'')"
  "str ''no'' \<noteq> []" "\<not> blank (str ''no'')"
  "str ''ok'' \<noteq> []" "\<not> blank (str ''ok'')"
  by (simp_all add: str_def blank_def isspace_def)

lemma responses_format:
  "check_format (str ''def f: Error'')" "\<not> check_format (str ''no'')" "\<not> check_format (str ''ok'')"
  by (simp_all add: check_format_def str_def)

lemma four_sample_1:
  "sample_outcome loads (scripted four_replies) 0 =
     (Graded (str ''def f: Error'') (9/10)
        \<lparr>format_correct = True, educational_value = 9/10, failure_reason = Value (JStr [])\<rparr>, 2)"
  using sample_outcome_graded[where llm = "scripted four_replies" and c = 0 and loads = loads, OF four_script(1) responses_usable(1,2)]
  by (simp add: four_script judge_1 responses_format)

lemma four_sample_2:
  "sample_outcome loads (scripted four_replies) 2 =
     (Graded (str ''no'') (3/10)
        \<lparr>format_correct = False, educational_value = 3/10, failure_reason = Value (JStr [])\<rparr>, 4)"
  using sample_outcome_graded[where llm = "scripted four_replies" and c = 2 and loads = loads, OF four_script(3) responses_usable(3,4)]
  by (simp add: four_script judge_2 responses_format)

lemma four_sample_3:
  "sample_outcome loads (scripted four_replies) 4 =
     (Graded (str ''ok'') (19/20)
        \<lparr>format_correct = False, educational_value = 19/20, failure_reason = Value (JStr [])\<rparr>, 6)"
  using sample_outcome_graded[where llm = "scripted four_replies" and c = 4 and loads = loads, OF four_script(5) responses_usable(5,6)]
  by (simp add: four_script judge_3 responses_format)

lemma four_sample_4:
  "sample_outcome loads (scripted four_replies) 6 =
     (Graded (str ''ok'') (3/5)
        \<lparr>format_correct = False, educational_value = 3/5, failure_reason = Value (JStr [])\<rparr>, 8)"
  using sample_outcome_graded[where llm = "scripted four_replies" and c = 6 and loads = loads, OF four_script(7) responses_usable(5,6)]
  by (simp add: four_script judge_4 responses_format)

lemma four_outcomes:
  "outcomes loads (scripted four_replies) 0 four_kinds =
     [Graded (str ''def f: Error'') (9/10)
        \<lparr>format_correct = True, educational_value = 9/10, failure_reason = Value (JStr [])\<rparr>,
      Graded (str ''no'') (3/10)
        \<lparr>format_correct = False, educational_value = 3/10, failure_reason = Value (JStr [])\<rparr>,
      Graded (str ''ok'') (19/20)
        \<lparr>format_correct = False, educational_value = 19/20, failure_reason = Value (JStr [])\<rparr>,
      Graded (str ''ok'') (3/5)
        \<lparr>format_correct = False, educational_value = 3/5, failure_reason = Value (JStr [])\<rparr>]"
  by (simp add: four_kinds_def four_sample_1 four_sample_2 four_sample_3 four_sample_4)

lemma inflated_outcomes:
  "outcomes loads (scripted inflated_replies) 0 one_case =
     [Graded (str ''ok'') (49/20)
        \<lparr>format_correct = False, educational_value = 7, failure_reason = Value (JStr [])\<rparr>]"
proof -
  have s0: "scripted inflated_replies 0 = Returns (Some (str ''ok''))"
    and s1: "scripted inflated_replies (Suc 0) = Returns (Some (str ''guidance: 7''))"
    by (simp_all add: scripted_def inflated_replies_def)
  from sample_outcome_graded[where llm = "scripted inflated_replies" and c = 0 and loads = loads, OF s0 responses_usable(5,6)]
  have "sample_outcome loads (scripted inflated_replies) 0 =
     (Graded (str ''ok'') (49/20)
        \<lparr>format_correct = False, educational_value = 7, failure_reason = Value (JStr [])\<rparr>, 2)"
    by (simp add: s1 judge_inflated responses_format)
  then show ?thesis by (simp add: one_case_def)
qed

section \<open>The properties on the example runs\<close>

lemma four_kinds_nonempty: "four_kinds \<noteq> []"
  by (simp add: four_kinds_def)

lemma four_guidance_bounded:
  "list_all (\<lambda>out. 0 \<le> guidance_of out \<and> guidance_of out \<le> 1)
     (outcomes no_json (scripted four_replies) 0 four_kinds)"
  by (simp add: four_outcomes)

theorem scores_in_unit_interval_witness:
  "four_kinds \<noteq> []
   \<and> list_all (\<lambda>out. 0 \<le> guidance_of out \<and> guidance_of out \<le> 1)
        (outcomes no_json (scripted four_replies) 0 four_kinds)
   \<and> \<not> isl (evaluate no_json (scripted four_replies) four_kinds)
   \<and> 0 \<le> m_educational_value (metrics (snd (projr (evaluate no_json (scripted four_replies) four_kinds))))
   \<and> m_educational_value (metrics (snd (projr (evaluate no_json (scripted four_replies) four_kinds)))) \<le> 1
   \<and> 0 \<le> fst (projr (evaluate no_json (scripted four_replies) four_kinds))
   \<and> fst (projr (evaluate no_json (scripted four_replies) four_kinds)) \<le> 1"
proof -
  from scores_in_unit_interval[OF four_kinds_nonempty, of no_json "scripted four_replies"]
    four_guidance_bounded
  obtain score ev where "evaluate no_json (scripted four_replies) four_kinds = Inr (score, ev)"
    and "score = overall_score (metrics ev)"
    and "0 \<le> m_educational_value (metrics ev)" and "m_educational_value (metrics ev) \<le> 1"
    and "0 \<le> overall_score (metrics ev)" and "overall_score (metrics ev) \<le> 1"
    by blast
  then show ?thesis using four_kinds_nonempty four_guidance_bounded by simp
qed

lemma one_case_counts:
  "count_kind Syntax one_case = 1" "count_kind Runtime one_case = 0"
  "count_kind Logical one_case = 0" "count_kind Conceptual one_case = 0"
  "count_level Beginner one_case = 1" "count_level Intermediate one_case = 0"
  "count_level Advanced one_case = 0" "length one_case = 1"
  by (simp_all add: one_case_def case_of_def count_kind_def count_level_def)

lemma inflated_passes:
  "pass_kind Syntax one_case (outcomes loads (scripted inflated_replies) 0 one_case) = 1"
  "pass_level Beginner one_case (outcomes loads (scripted inflated_replies) 0 one_case) = 1"
  unfolding inflated_outcomes by (simp_all add: one_case_def case_of_def pass_kind_def pass_level_def)

lemma inflated_scores:
  "error_detection_of (final_state loads (scripted inflated_replies) one_case) = 1/4"
  "difficulty_of (final_state loads (scripted inflated_replies) one_case) = 1/3"
  by (simp_all add: error_detection_of_final difficulty_of_final
      one_case_counts inflated_passes error_types_def difficulty_levels_def)

lemma inflated_sums:
  "educational_value_sum (stats (final_state loads (scripted inflated_replies) one_case)) = 7"
  "stat_format_correct (stats (final_state loads (scripted inflated_replies) one_case)) = 0"
  by (simp_all add: final_educational final_format inflated_outcomes)

text \<open>
  Claim C3. (counterexample) One test case whose grader reply is \<^verbatim>\<open>guidance: 7\<close>: the
  run returns the score 67/30 and an educational score of 7, both above 1. On the empty
  corpus nothing is returned at all.
\<close>

theorem guidance_above_one_breaks_unit_interval:
  "\<not> isl (evaluate no_json (scripted inflated_replies) one_case)
   \<and> fst (projr (evaluate no_json (scripted inflated_replies) one_case)) = 67/30
   \<and> overall_score (metrics (snd (projr (evaluate no_json (scripted inflated_replies) one_case)))) = 67/30
   \<and> m_educational_value (metrics (snd (projr (evaluate no_json (scripted inflated_replies) one_case)))) = 7
   \<and> isl (evaluate no_json (scripted inflated_replies) [])"
proof -
  have "isl (evaluate no_json (scripted inflated_replies) [])"
    by (simp add: evaluate_def)
  then show ?thesis
    by (simp add: evaluate_nonempty[OF one_case_nonempty] inflated_scores inflated_sums one_case_counts)
qed

theorem difficulty_score_divides_by_three_witness:
  "one_case \<noteq> [] \<and> list_all (\<lambda>r. difficulty r = Beginner) one_case
   \<and> pass_level Beginner one_case (outcomes no_json (scripted inflated_replies) 0 one_case) = length one_case
   \<and> difficulty_adaptation (metrics (snd (projr (evaluate no_json (scripted inflated_replies) one_case)))) = 1/3"
proof -
  have h: "one_case \<noteq> [] \<and> list_all (\<lambda>r. difficulty r = Beginner) one_case"
    by (simp add: one_case_def case_of_def)
  from difficulty_score_divides_by_three[of one_case no_json "scripted inflated_replies" Beginner] h
  obtain score ev where "evaluate no_json (scripted inflated_replies) one_case = Inr (score, ev)"
    and "difficulty_adaptation (metrics ev) =
             (of_nat (pass_level Beginner one_case (outcomes no_json (scripted inflated_replies) 0 one_case))
                / of_nat (length one_case)) / 3"
    by blast
  then show ?thesis using h by (simp add: inflated_passes one_case_counts)
qed

lemma four_kinds_types: "map error_type four_kinds = [Syntax, Runtime, Logical, Conceptual]"
  by (simp add: four_kinds_def case_of_def)

lemma four_scores:
  "map score_of (outcomes no_json (scripted four_replies) 0 four_kinds)
     = [Some (9/10), Some (3/10), Some (19/20), Some (3/5)]"
  by (simp add: four_outcomes)

theorem error_detection_weighted_pass_rate_witness:
  "four_kinds \<noteq> []
   \<and> map error_type four_kinds = [Syntax, Runtime, Logical, Conceptual]
   \<and> map score_of (outcomes no_json (scripted four_replies) 0 four_kinds)
       = [Some (9/10), Some (3/10), Some (19/20), Some (3/5)]
   \<and> error_detection (metrics (snd (projr (evaluate no_json (scripted four_replies) four_kinds)))) = 1/2"
proof -
  from error_detection_weighted_pass_rate[of four_kinds no_json "scripted four_replies"]
    four_kinds_types four_scores
  obtain score ev where "evaluate no_json (scripted four_replies) four_kinds = Inr (score, ev)"
    and "error_detection (metrics ev) = 1/2"
    by blast
  then show ?thesis using four_kinds_nonempty four_kinds_types four_scores by simp
qed

lemma four_low_entries:
  "low_score_entries four_kinds (outcomes no_json (scripted four_replies) 0 four_kinds) =
     [\<lparr>es_input = str ''b'', es_output = str ''no'', es_expected = str ''fix'',
       es_error_type = Runtime, es_difficulty = Intermediate, es_score = 3/10,
       es_reason = Value (JStr [])\<rparr>,
      \<lparr>es_input = str ''d'', es_output = str ''ok'', es_expected = str ''fix'',
       es_error_type = Conceptual, es_difficulty = Beginner, es_score = 3/5,
       es_reason = Value (JStr [])\<rparr>]"
  unfolding four_outcomes by (simp add: low_score_entries_def four_kinds_def case_of_def)

theorem low_score_samples_collected_witness:
  "four_kinds \<noteq> []
   \<and> m_error_samples (metrics (snd (projr (evaluate no_json (scripted four_replies) four_kinds)))) =
     [\<lparr>es_input = str ''b'', es_output = str ''no'', es_expected = str ''fix'',
       es_error_type = Runtime, es_difficulty = Intermediate, es_score = 3/10,
       es_reason = Value (JStr [])\<rparr>,
      \<lparr>es_input = str ''d'', es_output = str ''ok'', es_expected = str ''fix'',
       es_error_type = Conceptual, es_difficulty = Beginner, es_score = 3/5,
       es_reason = Value (JStr [])\<rparr>]"
proof -
  from low_score_samples_collected[OF four_kinds_nonempty, of no_json "scripted four_replies"]
  obtain score ev where "evaluate no_json (scripted four_replies) four_kinds = Inr (score, ev)"
    and "ev_error_samples ev
           = low_score_entries four_kinds (outcomes no_json (scripted four_replies) 0 four_kinds)"
    and "m_error_samples (metrics ev) = take 20 (ev_error_samples ev)"
    by blast
  then show ?thesis using four_kinds_nonempty by (simp add: four_low_entries)
qed

lemma extract_ok:
  "extract_metrics_manually (str ''ok'') =
     JObj [(str ''accuracy'', JFloat (1/2)), (str ''guidance'', JFloat (1/2)),
           (str ''clarity'', JFloat (1/2))]"
  by (simp add: regex_defs)

lemma judge_ok:
  "evaluate_single_response loads (Returns (Some (str ''ok''))) r
     = (1/2, \<lparr>format_correct = check_format r, educational_value = 1/2,
              failure_reason = Value (JStr [])\<rparr>)"
proof -
  have "re_search_braces (str ''ok'') = None" by (simp add: str_def brace_match_at_def)
  moreover have "str ''ok'' \<noteq> []" by (simp add: str_def)
  ultimately show ?thesis by (simp add: judge_fallback extract_ok score_metrics_floats)
qed

lemma always_ok_outcome:
  "sample_outcome loads always_ok c =
     (Graded (str ''ok'') (1/2)
        \<lparr>format_correct = False, educational_value = 1/2, failure_reason = Value (JStr [])\<rparr>,
      Suc (Suc c))"
proof -
  have a: "always_ok c = Returns (Some (str ''ok''))" by (simp add: always_ok_def)
  from sample_outcome_graded[where llm = always_ok and c = c and loads = loads,
        OF a responses_usable(5,6)]
  show ?thesis by (simp add: always_ok_def judge_ok responses_format)
qed

lemma always_ok_outcomes:
  "outcomes loads always_ok c (replicate m row) =
     replicate m (Graded (str ''ok'') (1/2)
        \<lparr>format_correct = False, educational_value = 1/2, failure_reason = Value (JStr [])\<rparr>)"
  by (induction m arbitrary: c) (simp_all add: always_ok_outcome)

lemma length_low_entries_replicate:
  "score < 17/20 \<Longrightarrow>
     length (low_score_entries (replicate m row) (replicate m (Graded r score mm))) = m"
  by (induction m) (simp_all add: low_score_entries_def)

lemma twenty_one_nonempty: "twenty_one_cases \<noteq> []"
  by (simp add: twenty_one_cases_def)

lemma twenty_one_low:
  "length (low_score_entries twenty_one_cases (outcomes loads always_ok 0 twenty_one_cases)) = 21"
  unfolding twenty_one_cases_def always_ok_outcomes
  by (rule length_low_entries_replicate) simp

text \<open>
  Claim C5. (counterexample) Twenty-one test cases, each answered and graded 0.5: the two
  lists at the top of the evidence hold 21 entries, the list under the metrics 20. One test
  case without a response: it counts as 0 in the pass vector and is not collected. On the
  empty corpus no report is returned.
\<close>

theorem low_score_samples_counterexample:
  "length twenty_one_cases = 21
   \<and> \<not> isl (evaluate no_json always_ok twenty_one_cases)
   \<and> length (fp_samples (snd (projr (evaluate no_json always_ok twenty_one_cases)))) = 21
   \<and> length (ev_error_samples (snd (projr (evaluate no_json always_ok twenty_one_cases)))) = 21
   \<and> length (m_error_samples (metrics (snd (projr (evaluate no_json always_ok twenty_one_cases))))) = 20
   \<and> ev_perf_vector (snd (projr (evaluate no_json (scripted silent_replies) one_case))) = [0]
   \<and> ev_error_samples (snd (projr (evaluate no_json (scripted silent_replies) one_case))) = []
   \<and> isl (evaluate no_json always_ok [])"
proof -
  have l: "length twenty_one_cases = 21" by (simp add: twenty_one_cases_def)
  have low: "low_score_entries one_case [NoResponse] = []"
    by (simp add: low_score_entries_def one_case_def)
  have a: "\<not> isl (evaluate no_json always_ok twenty_one_cases)
   \<and> length (fp_samples (snd (projr (evaluate no_json always_ok twenty_one_cases)))) = 21
   \<and> length (ev_error_samples (snd (projr (evaluate no_json always_ok twenty_one_cases)))) = 21
   \<and> length (m_error_samples (metrics (snd (projr (evaluate no_json always_ok twenty_one_cases))))) = 20"
    by (simp add: evaluate_nonempty[OF twenty_one_nonempty] final_error_samples twenty_one_low)
  have b: "ev_perf_vector (snd (projr (evaluate no_json (scripted silent_replies) one_case))) = [0]
   \<and> ev_error_samples (snd (projr (evaluate no_json (scripted silent_replies) one_case))) = []"
    by (simp add: evaluate_nonempty[OF one_case_nonempty] final_perf_vector final_error_samples
        silent_outcomes low)
  have c: "isl (evaluate no_json always_ok [])" by (simp add: evaluate_def)
  from l a b c show ?thesis by simp
qed

lemma nested_span:
  "re_search_braces nested_reply = Some (str ''{\"failure_reason\": \"accuracy: 0 }'')"
  by (simp add: nested_reply_def str_def brace_match_at_def)

lemma nested_span_fails:
  "loads_nested (str ''{\"failure_reason\": \"accuracy: 0 }'') = Inl JSONDecodeError"
  by (simp add: loads_nested_def nested_reply_def str_def)

lemma nested_extract:
  "extract_metrics_manually nested_reply =
     JObj [(str ''accuracy'', JFloat 0), (str ''guidance'', JFloat (4/5)),
           (str ''clarity'', JFloat (7/10))]"
  by (simp add: nested_reply_def regex_defs)

text \<open>
  Claim C8. (counterexample) The grader's reply is one well-formed JSON object with
  accuracy 0.9, guidance 0.8 and clarity 0.7, and its failure reason holds a closing brace:
  the brace span stops there and does not decode, the pattern search reads accuracy 0 from
  the failure reason, and the composite score is 0.38.
\<close>

theorem judge_structured_reply_counterexample:
  "loads_nested nested_reply = Inr (JObj nested_object)
   \<and> map_of nested_object (str ''accuracy'') = Some (JFloat (9/10))
   \<and> map_of nested_object (str ''guidance'') = Some (JFloat (4/5))
   \<and> map_of nested_object (str ''clarity'') = Some (JFloat (7/10))
   \<and> fst (evaluate_single_response loads_nested (Returns (Some nested_reply)) (str ''ok'')) = 19/50"
proof -
  have l: "loads_nested nested_reply = Inr (JObj nested_object)" by (simp add: loads_nested_def)
  have m: "map_of nested_object (str ''accuracy'') = Some (JFloat (9/10))"
          "map_of nested_object (str ''guidance'') = Some (JFloat (4/5))"
          "map_of nested_object (str ''clarity'') = Some (JFloat (7/10))"
    by (simp_all add: nested_object_def str_def)
  have ne: "nested_reply \<noteq> []" by (simp add: nested_reply_def str_def)
  have p: "parse_metrics loads_nested nested_reply = Inr (extract_metrics_manually nested_reply)"
    by (simp add: parse_metrics_def nested_span nested_span_fails)
  have "fst (evaluate_single_response loads_nested (Returns (Some nested_reply)) (str ''ok'')) = 19/50"
    using ne by (simp add: evaluate_single_response_def p nested_extract score_metrics_floats)
  with l m show ?thesis by simp
qed

section \<open>The balanced sampler\<close>

lemma mset_nth_subset:
  assumes "distinct idxs" and "\<forall>i\<in>set idxs. i < length xs"
  shows "mset (map (\<lambda>i. xs ! i) idxs) \<subseteq># mset xs"
proof -
  have "set idxs \<subseteq> {0..<length xs}" using assms(2) by auto
  then have "mset_set (set idxs) \<subseteq># mset_set {0..<length xs}"
    by (rule subset_imp_msubset_mset_set) simp
  then have "mset idxs \<subseteq># mset [0..<length xs]"
    using assms(1) by (simp add: mset_set_set)
  then have "image_mset (\<lambda>i. xs ! i) (mset idxs) \<subseteq># image_mset (\<lambda>i. xs ! i) (mset [0..<length xs])"
    by (rule image_mset_subseteq_mono)
  moreover have "image_mset (\<lambda>i. xs ! i) (mset [0..<length xs]) = mset xs"
    by (metis map_nth mset_map)
  ultimately show ?thesis by simp
qed

lemma random_sample_props:
  assumes "sample_contract rsample" and "k \<le> length xs"
  shows "mset (fst (random_sample rsample g xs k)) \<subseteq># mset xs"
    and "length (fst (random_sample rsample g xs k)) = k"
proof -
  from assms have c: "length (fst (rsample g (length xs) k)) = k"
      "distinct (fst (rsample g (length xs) k))"
      "\<forall>i\<in>set (fst (rsample g (length xs) k)). i < length xs"
    unfolding sample_contract_def by blast+
  have eq: "fst (random_sample rsample g xs k) = map (\<lambda>i. xs ! i) (fst (rsample g (length xs) k))"
    by (simp add: random_sample_def split: prod.splits)
  show "mset (fst (random_sample rsample g xs k)) \<subseteq># mset xs"
    unfolding eq using c(2,3) by (rule mset_nth_subset)
  show "length (fst (random_sample rsample g xs k)) = k"
    unfolding eq using c(1) by simp
qed

lemma sample_groups_subset:
  assumes "sample_contract rsample"
  shows "mset (fst (sample_groups rsample spg g gs)) \<subseteq># mset (concat (map snd gs))"
proof (induction gs arbitrary: g)
  case Nil
  show ?case by simp
next
  case (Cons kg gs)
  obtain key members where kg: "kg = (key, members)" by (cases kg)
  obtain xs g1 where r: "random_sample rsample g members (min spg (length members)) = (xs, g1)"
    by (cases "random_sample rsample g members (min spg (length members))")
  obtain ys g2 where s: "sample_groups rsample spg g1 gs = (ys, g2)"
    by (cases "sample_groups rsample spg g1 gs")
  have "mset xs \<subseteq># mset members"
    using random_sample_props(1)[OF assms, of "min spg (length members)" members g] r by simp
  moreover have "mset ys \<subseteq># mset (concat (map snd gs))"
    using Cons.IH[of g1] s by simp
  ultimately show ?case
    by (simp add: kg r s subset_mset.add_mono)
qed

lemma mset_groups_add:
  "mset (concat (map snd (groups_add c gs))) = add_mset c (mset (concat (map snd gs)))"
  by (induction c gs rule: groups_add.induct) simp_all

lemma mset_foldl_groups_add:
  "mset (concat (map snd (foldl (\<lambda>gs c. groups_add c gs) gs cases))) =
     mset (concat (map snd gs)) + mset cases"
  by (induction cases arbitrary: gs) (simp_all add: mset_groups_add)

lemma mset_group_cases: "mset (concat (map snd (group_cases cases))) = mset cases"
  by (simp add: group_cases_def mset_foldl_groups_add)

lemma mset_concat_snd:
  "mset (concat (map snd zs)) = sum_mset (image_mset (\<lambda>z. mset (snd z)) (mset zs))"
  by (induction zs) simp_all

lemma mset_concat_perm:
  assumes "mset xs = mset ys"
  shows "mset (concat (map snd xs)) = mset (concat (map snd ys))"
  using assms by (simp add: mset_concat_snd)

lemma mset_sorted_groups: "mset (concat (map snd (sorted_groups cases))) = mset cases"
proof -
  have "mset (sorted_groups cases) = mset (group_cases cases)"
    by (simp add: sorted_groups_def)
  from mset_concat_perm[OF this] show ?thesis by (simp add: mset_group_cases)
qed

lemma group_cases_nonempty: "cases \<noteq> [] \<Longrightarrow> group_cases cases \<noteq> []"
proof
  assume "cases \<noteq> []" and "group_cases cases = []"
  then have "mset cases = {#}" using mset_group_cases[of cases] by simp
  with \<open>cases \<noteq> []\<close> show False by simp
qed

lemma fst_groups_add:
  "map fst (groups_add c gs) = (if group_key c \<in> set (map fst gs) then map fst gs else map fst gs @ [group_key c])"
  by (induction c gs rule: groups_add.induct) auto

lemma distinct_keys_foldl:
  "distinct (map fst gs) \<Longrightarrow> distinct (map fst (foldl (\<lambda>gs c. groups_add c gs) gs cases))"
  by (induction cases arbitrary: gs) (simp_all add: fst_groups_add)

lemma distinct_group_keys: "distinct (map fst (group_cases cases))"
  by (simp add: group_cases_def distinct_keys_foldl)

lemma strata_strictly_sorted: "sorted_wrt (<) (map fst (sorted_groups cases))"
proof -
  have "sorted (map fst (sorted_groups cases))"
    by (simp add: sorted_groups_def sorted_sort_key)
  moreover have "distinct (map fst (sorted_groups cases))"
  proof -
    have "mset (map fst (sorted_groups cases)) = mset (map fst (group_cases cases))"
      by (simp add: sorted_groups_def)
    then show ?thesis using distinct_group_keys[of cases] by (metis mset_eq_imp_distinct_iff)
  qed
  ultimately show ?thesis by (simp add: strict_sorted_iff)
qed

lemma remaining_length:
  assumes "distinct cases" and "mset sampled \<subseteq># mset cases"
  shows "length (filter (\<lambda>c. c \<notin> set sampled) cases) = length cases - length sampled"
proof -
  have d: "distinct sampled"
    unfolding distinct_count_atmost_1
  proof
    fix a
    have "count (mset cases) a \<le> 1"
      using assms(1) by (simp add: distinct_count_atmost_1)
    then have le: "count (mset sampled) a \<le> 1"
      using mset_subset_eq_count[OF assms(2), of a] by simp
    show "count (mset sampled) a = (if a \<in> set sampled then 1 else 0)"
    proof (cases "a \<in> set sampled")
      case True
      then have "0 < count (mset sampled) a" by simp
      with le have "count (mset sampled) a = 1" by linarith
      with True show ?thesis by simp
    next
      case False
      then show ?thesis by simp
    qed
  qed
  have ss: "set sampled \<subseteq> set cases"
    using assms(2) set_mset_mono by fastforce
  have "length (filter (\<lambda>c. c \<notin> set sampled) cases) = card ({x. x \<notin> set sampled} \<inter> set cases)"
    using assms(1) by (rule distinct_length_filter)
  also have "{x. x \<notin> set sampled} \<inter> set cases = set cases - set sampled" by auto
  also have "card (set cases - set sampled) = card (set cases) - card (set sampled)"
    using ss by (simp add: card_Diff_subset)
  also have "\<dots> = length cases - length sampled"
    using assms(1) d by (simp add: distinct_card)
  finally show ?thesis .
qed

text \<open>
  Claim C4. (amended) When the library sampler keeps its contract, for every non-empty
  corpus of pairwise different test cases, every bound of at least 1, every seed and every
  generator state, the balanced sampler returns a list, and its length is the minimum of
  the bound and the size of the corpus.
\<close>

theorem sample_size_on_distinct_corpus:
  assumes contract: "sample_contract rsample"
      and nonempty: "cases \<noteq> []"
      and dist: "distinct cases"
      and n1: "1 \<le> n"
  shows "\<exists>sampled. fst (sample_balanced_cases rseed rsample cases n seed g0) = Inr sampled
           \<and> int (length sampled) = min n (int (length cases))"
proof -
  have ne: "length (group_cases cases) \<noteq> 0"
    using group_cases_nonempty[OF nonempty] by simp
  define spg where "spg = nat (max 1 (n div int (length (group_cases cases))))"
  obtain sampled g1 where sg:
    "sample_groups rsample spg (rseed seed) (sorted_groups cases) = (sampled, g1)"
    by (cases "sample_groups rsample spg (rseed seed) (sorted_groups cases)")
  have sub: "mset sampled \<subseteq># mset cases"
    using sample_groups_subset[OF contract, of spg "rseed seed" "sorted_groups cases"] sg
    by (simp add: mset_sorted_groups)
  have L: "length sampled \<le> length cases"
    using size_mset_mono[OF sub] by simp
  define remaining where "remaining = filter (\<lambda>c. c \<notin> set sampled) cases"
  have R: "length remaining = length cases - length sampled"
    unfolding remaining_def using dist sub by (rule remaining_length)
  have sl: "slice_to xs n = take (nat n) xs" for xs :: "test_case list"
    using n1 by (simp add: slice_to_def)
  show ?thesis
  proof (cases "int (length sampled) < n")
    case False
    then have res: "fst (sample_balanced_cases rseed rsample cases n seed g0) = Inr (take (nat n) sampled)"
      using ne sg by (simp add: sample_balanced_cases_def Let_def spg_def[symmetric] sl)
    have "int (length (take (nat n) sampled)) = min n (int (length cases))"
      using False L n1 by simp
    with res show ?thesis by blast
  next
    case lt: True
    show ?thesis
    proof (cases "remaining = []")
      case True
      then have res: "fst (sample_balanced_cases rseed rsample cases n seed g0) = Inr (take (nat n) sampled)"
        using ne sg lt by (simp add: sample_balanced_cases_def Let_def spg_def[symmetric] sl remaining_def)
      from True R L have "length cases = length sampled" by simp
      then have "int (length (take (nat n) sampled)) = min n (int (length cases))"
        using lt by simp
      with res show ?thesis by blast
    next
      case False
      define additional where "additional = min (nat (n - int (length sampled))) (length remaining)"
      obtain extra g2 where ex: "random_sample rsample g1 remaining additional = (extra, g2)"
        by (cases "random_sample rsample g1 remaining additional")
      have al: "additional \<le> length remaining" by (simp add: additional_def)
      have el: "length extra = additional"
        using random_sample_props(2)[OF contract al, of g1] ex by simp
      have res: "fst (sample_balanced_cases rseed rsample cases n seed g0) = Inr (take (nat n) (sampled @ extra))"
        using ne sg lt False ex
        by (simp add: sample_balanced_cases_def Let_def spg_def[symmetric] sl remaining_def[symmetric]
            additional_def[symmetric])
      have "int (length (take (nat n) (sampled @ extra))) = min n (int (length cases))"
        using el R L lt n1 by (simp add: additional_def)
      with res show ?thesis by blast
    qed
  qed
qed

section \<open>The sampler on example corpora\<close>

lemma first_positions_contract: "sample_contract first_positions"
  by (simp add: sample_contract_def first_positions_def)

lemma distinct_corpus_props: "distinct_corpus \<noteq> []" "distinct distinct_corpus" "length distinct_corpus = 3"
  by (simp_all add: distinct_corpus_def case_of_def str_def)

theorem sample_size_on_distinct_corpus_witness:
  "sample_contract first_positions \<and> distinct_corpus \<noteq> [] \<and> distinct distinct_corpus
   \<and> (1::int) \<le> 3
   \<and> \<not> isl (fst (sample_balanced_cases seed_counter first_positions distinct_corpus 3 42 0))
   \<and> length (projr (fst (sample_balanced_cases seed_counter first_positions distinct_corpus 3 42 0))) = 3"
proof -
  have n: "(1::int) \<le> 3" by simp
  from sample_size_on_distinct_corpus[OF first_positions_contract distinct_corpus_props(1,2) n,
        of seed_counter 42 0]
  obtain sampled where
    "fst (sample_balanced_cases seed_counter first_positions distinct_corpus 3 42 0) = Inr sampled"
    and "int (length sampled) = min 3 (int (length distinct_corpus))"
    by blast
  then show ?thesis
    using first_positions_contract distinct_corpus_props by simp
qed

lemma duplicated_groups:
  "group_cases duplicated_corpus =
     [((''syntax'', ''beginner''), [case_of Syntax Beginner ''a'', case_of Syntax Beginner ''a'']),
      ((''logical'', ''advanced''), [case_of Logical Advanced ''b''])]"
  by (simp add: group_cases_def duplicated_corpus_def group_key_def case_of_def)

lemma duplicated_sorted_groups:
  "sorted_groups duplicated_corpus =
     [((''logical'', ''advanced''), [case_of Logical Advanced ''b'']),
      ((''syntax'', ''beginner''), [case_of Syntax Beginner ''a'', case_of Syntax Beginner ''a''])]"
  by (simp add: sorted_groups_def duplicated_groups)

lemma sample_without_top_up:
  assumes "group_cases cases \<noteq> []"
      and "sample_groups rsample (nat (max 1 (n div int (length (group_cases cases))))) (rseed seed)
             (sorted_groups cases) = (sampled, after)"
      and "int (length sampled) < n"
      and "filter (\<lambda>c. c \<notin> set sampled) cases = []"
  shows "fst (sample_balanced_cases rseed rsample cases n seed ambient) = Inr (slice_to sampled n)"
  using assms by (simp add: sample_balanced_cases_def Let_def)

lemma duplicated_sampled:
  "sample_groups first_positions (nat (max 1 (3 div int (length (group_cases duplicated_corpus)))))
     (seed_counter 42) (sorted_groups duplicated_corpus) =
     ([case_of Logical Advanced ''b'', case_of Syntax Beginner ''a''], Suc (Suc (seed_counter 42)))"
  by (simp add: duplicated_groups duplicated_sorted_groups random_sample_def first_positions_def)

lemma duplicated_remaining:
  "filter (\<lambda>c. c \<notin> set [case_of Logical Advanced ''b'', case_of Syntax Beginner ''a''])
     duplicated_corpus = []"
  by (simp add: duplicated_corpus_def)

text \<open>
  Claim C4. (counterexample) On the empty corpus the sampler raises; on a corpus of three
  test cases in two strata, two of them equal, with bound 3, it returns two test cases:
  the equal one is taken for already sampled when the rest is drawn.
\<close>

theorem sample_size_counterexample:
  "fst (sample_balanced_cases seed_counter first_positions [] 1 42 0) = Inl ZeroDivisionError
   \<and> fst (sample_balanced_cases seed_counter first_positions duplicated_corpus 3 42 0)
       = Inr [case_of Logical Advanced ''b'', case_of Syntax Beginner ''a'']
   \<and> length duplicated_corpus = 3"
proof -
  have a: "fst (sample_balanced_cases seed_counter first_positions [] 1 42 0) = Inl ZeroDivisionError"
    by (simp add: sample_balanced_cases_def group_cases_def)
  have ne: "group_cases duplicated_corpus \<noteq> []" by (simp add: duplicated_groups)
  have lt: "int (length [case_of Logical Advanced ''b'', case_of Syntax Beginner ''a'']) < 3"
    by simp
  have b: "fst (sample_balanced_cases seed_counter first_positions duplicated_corpus 3 42 0)
       = Inr [case_of Logical Advanced ''b'', case_of Syntax Beginner ''a'']"
    using sample_without_top_up[where rseed = seed_counter and seed = 42 and rsample = first_positions
            and cases = duplicated_corpus and n = 3 and ambient = 0,
          OF ne duplicated_sampled lt duplicated_remaining]
    by (simp add: slice_to_def)
  have c: "length duplicated_corpus = 3" by (simp add: duplicated_corpus_def)
  from a b c show ?thesis by simp
qed

lemma set_fst_groups_add:
  "fst ` set (groups_add c gs) = insert (group_key c) (fst ` set gs)"
  by (induction c gs rule: groups_add.induct) auto

lemma set_keys_foldl:
  "fst ` set (foldl (\<lambda>gs c. groups_add c gs) gs cases) = fst ` set gs \<union> group_key ` set cases"
  by (induction cases arbitrary: gs) (simp_all add: set_fst_groups_add)

lemma set_sorted_group_keys: "fst ` set (sorted_groups cases) = group_key ` set cases"
  by (simp add: sorted_groups_def group_cases_def set_keys_foldl)

section \<open>The order of the strata in the sample\<close>

lemma group_cases_snoc: "group_cases (xs @ [x]) = groups_add x (group_cases xs)"
  by (simp add: group_cases_def)

lemma groups_add_strata:
  assumes "distinct (map fst gs)"
      and "\<And>k cs. (k, cs) \<in> set gs \<Longrightarrow> cs = stratum k xs"
      and "group_key x \<notin> fst ` set gs \<Longrightarrow> stratum (group_key x) xs = []"
      and "(k, cs) \<in> set (groups_add x gs)"
  shows "cs = stratum k (xs @ [x])"
  using assms
proof (induction x gs rule: groups_add.induct)
  case (1 c)
  then show ?case by (simp add: stratum_def)
next
  case (2 c k' cs' gs)
  show ?case
  proof (cases "k' = group_key c")
    case True
    with 2(5) have "(k, cs) = (k', cs' @ [c]) \<or> (k, cs) \<in> set gs" by simp
    then show ?thesis
    proof
      assume "(k, cs) = (k', cs' @ [c])"
      moreover have "cs' = stratum k' xs" using 2(3)[of k' cs'] by simp
      ultimately show ?thesis using True by (simp add: stratum_def)
    next
      assume m: "(k, cs) \<in> set gs"
      then have "k \<in> fst ` set gs" by force
      with 2(2) have "k \<noteq> k'" by auto
      moreover have "cs = stratum k xs" using 2(3)[of k cs] m by simp
      ultimately show ?thesis using True by (simp add: stratum_def)
    qed
  next
    case False
    with 2(5) have "(k, cs) = (k', cs') \<or> (k, cs) \<in> set (groups_add c gs)" by simp
    then show ?thesis
    proof
      assume "(k, cs) = (k', cs')"
      moreover have "cs' = stratum k' xs" using 2(3)[of k' cs'] by simp
      ultimately show ?thesis using False by (simp add: stratum_def)
    next
      assume m: "(k, cs) \<in> set (groups_add c gs)"
      show ?thesis
      proof (rule 2(1)[OF False])
        show "distinct (map fst gs)" using 2(2) by simp
        show "\<And>k cs. (k, cs) \<in> set gs \<Longrightarrow> cs = stratum k xs" using 2(3) by simp
        show "group_key c \<notin> fst ` set gs \<Longrightarrow> stratum (group_key c) xs = []"
          using 2(4) False by auto
        show "(k, cs) \<in> set (groups_add c gs)" by (rule m)
      qed
    qed
  qed
qed

lemma group_keys: "fst ` set (group_cases cases) = group_key ` set cases"
  by (simp add: group_cases_def set_keys_foldl)

lemma group_cases_strata:
  "(k, cs) \<in> set (group_cases cases) \<Longrightarrow> cs = stratum k cases"
proof (induction cases arbitrary: k cs rule: rev_induct)
  case Nil
  then show ?case by (simp add: group_cases_def)
next
  case (snoc x xs)
  show ?case
  proof (rule groups_add_strata[where gs = "group_cases xs" and x = x])
    show "distinct (map fst (group_cases xs))" by (rule distinct_group_keys)
    show "\<And>k cs. (k, cs) \<in> set (group_cases xs) \<Longrightarrow> cs = stratum k xs" by (rule snoc.IH)
    show "group_key x \<notin> fst ` set (group_cases xs) \<Longrightarrow> stratum (group_key x) xs = []"
      by (simp add: group_keys stratum_def filter_empty_conv) (metis imageI)
    show "(k, cs) \<in> set (groups_add x (group_cases xs))"
      using snoc.prems by (simp add: group_cases_snoc)
  qed
qed

lemma sorted_groups_strata:
  "(k, cs) \<in> set (sorted_groups cases) \<Longrightarrow> cs = stratum k cases"
  using group_cases_strata[of k cs cases] by (simp add: sorted_groups_def)

lemma sorted_groups_nonempty:
  assumes "(k, cs) \<in> set (sorted_groups cases)"
  shows "cs \<noteq> []"
proof -
  from assms have "k \<in> fst ` set (sorted_groups cases)" by force
  then have "k \<in> group_key ` set cases" by (simp add: set_sorted_group_keys)
  then have "stratum k cases \<noteq> []" by (auto simp: stratum_def filter_empty_conv)
  with sorted_groups_strata[OF assms] show ?thesis by simp
qed

lemma distinct_sorted_group_keys: "distinct (map fst (sorted_groups cases))"
  using strata_strictly_sorted[of cases] by (simp add: strict_sorted_iff)

lemma length_group_cases: "length (group_cases cases) = card (group_key ` set cases)"
proof -
  have "card (set (map fst (group_cases cases))) = length (map fst (group_cases cases))"
    using distinct_group_keys by (rule distinct_card)
  then show ?thesis by (simp add: group_keys)
qed

lemma map_const_replicate: "(\<And>c. c \<in> set xs \<Longrightarrow> f c = k) \<Longrightarrow> map f xs = replicate (length xs) k"
  by (induction xs) auto

lemma sample_groups_keys:
  assumes "sample_contract rsample"
      and "\<And>k cs c. (k, cs) \<in> set gs \<Longrightarrow> c \<in> set cs \<Longrightarrow> group_key c = k"
  shows "map group_key (fst (sample_groups rsample spg g gs)) =
           concat (map (\<lambda>(k, cs). replicate (min spg (length cs)) k) gs)"
  using assms(2)
proof (induction gs arbitrary: g)
  case Nil
  show ?case by simp
next
  case (Cons kg gs)
  obtain key members where kg: "kg = (key, members)" by (cases kg)
  obtain xs g1 where r: "random_sample rsample g members (min spg (length members)) = (xs, g1)"
    by (cases "random_sample rsample g members (min spg (length members))")
  obtain ys g2 where s: "sample_groups rsample spg g1 gs = (ys, g2)"
    by (cases "sample_groups rsample spg g1 gs")
  have sub: "mset xs \<subseteq># mset members"
    using random_sample_props(1)[OF assms(1), of "min spg (length members)" members g] r by simp
  have len: "length xs = min spg (length members)"
    using random_sample_props(2)[OF assms(1), of "min spg (length members)" members g] r by simp
  have "c \<in> set xs \<Longrightarrow> group_key c = key" for c
    using set_mset_mono[OF sub] Cons.prems[of key members c] by (auto simp: kg)
  then have x: "map group_key xs = replicate (min spg (length members)) key"
    using map_const_replicate[of xs group_key key] len by simp
  have "map group_key (fst (sample_groups rsample spg g1 gs)) =
           concat (map (\<lambda>(k, cs). replicate (min spg (length cs)) k) gs)"
    by (rule Cons.IH) (use Cons.prems in auto)
  then have y: "map group_key ys = concat (map (\<lambda>(k, cs). replicate (min spg (length cs)) k) gs)"
    using s by simp
  show ?case by (simp add: kg r s x y)
qed

lemma set_blocks:
  "set (concat (map (\<lambda>(k, cs). replicate (f cs) k) gs)) \<subseteq> fst ` set gs"
  by (induction gs) (auto split: if_splits)

lemma sorted_blocks:
  "sorted (map fst gs) \<Longrightarrow> sorted (concat (map (\<lambda>(k, cs). replicate (f cs) k) gs))"
proof (induction gs)
  case Nil
  show ?case by simp
next
  case (Cons kg gs)
  obtain k cs where kg: "kg = (k, cs)" by (cases kg)
  from Cons.prems have le: "\<And>y. y \<in> fst ` set gs \<Longrightarrow> k \<le> y" and st: "sorted (map fst gs)"
    by (auto simp: kg)
  have "\<And>y. y \<in> set (concat (map (\<lambda>(k, cs). replicate (f cs) k) gs)) \<Longrightarrow> k \<le> y"
    using set_blocks[of f gs] le by blast
  then show ?case using Cons.IH[OF st] by (auto simp: kg sorted_append)
qed

lemma count_blocks_absent:
  "k \<notin> fst ` set gs \<Longrightarrow>
     filter (\<lambda>k'. k' = k) (concat (map (\<lambda>(k, cs). replicate (f cs) k) gs)) = []"
  using set_blocks[of f gs] by (auto simp: filter_empty_conv)

lemma count_blocks_present:
  "distinct (map fst gs) \<Longrightarrow> (k, cs) \<in> set gs \<Longrightarrow>
     length (filter (\<lambda>k'. k' = k) (concat (map (\<lambda>(k, cs). replicate (f cs) k) gs))) = f cs"
proof (induction gs)
  case Nil
  then show ?case by simp
next
  case (Cons kg gs)
  obtain k' cs' where kg: "kg = (k', cs')" by (cases kg)
  show ?case
  proof (cases "(k, cs) = (k', cs')")
    case True
    then have "k \<notin> fst ` set gs" using Cons.prems(1) by (auto simp: kg)
    from count_blocks_absent[OF this, of f] True show ?thesis by (simp add: kg)
  next
    case False
    with Cons.prems have m: "(k, cs) \<in> set gs" and d: "distinct (map fst gs)" by (auto simp: kg)
    then have "k \<in> fst ` set gs" by force
    with Cons.prems(1) have "k' \<noteq> k" by (auto simp: kg)
    then show ?thesis using Cons.IH[OF d m] by (simp add: kg)
  qed
qed

lemma length_stratum_map:
  "length (stratum k xs) = length (filter (\<lambda>k'. k' = k) (map group_key xs))"
  by (simp add: stratum_def filter_map comp_def)

lemma stratified_quota:
  assumes "sample_contract rsample"
  shows "length (stratum k (fst (sample_groups rsample spg g (sorted_groups cases)))) =
           min spg (length (stratum k cases))"
proof -
  let ?gs = "sorted_groups cases"
  have keys: "map group_key (fst (sample_groups rsample spg g ?gs)) =
           concat (map (\<lambda>(k, cs). replicate (min spg (length cs)) k) ?gs)"
  proof (rule sample_groups_keys[OF assms])
    fix k cs c assume "(k, cs) \<in> set ?gs" and "c \<in> set cs"
    then show "group_key c = k" using sorted_groups_strata[of k cs cases] by (simp add: stratum_def)
  qed
  show ?thesis
  proof (cases "k \<in> fst ` set ?gs")
    case True
    then obtain cs where m: "(k, cs) \<in> set ?gs" by force
    have "cs = stratum k cases" using sorted_groups_strata[OF m] .
    moreover have "length (stratum k (fst (sample_groups rsample spg g ?gs))) = min spg (length cs)"
      unfolding length_stratum_map keys
      using count_blocks_present[OF distinct_sorted_group_keys m, of "\<lambda>cs. min spg (length cs)"] .
    ultimately show ?thesis by simp
  next
    case False
    then have "k \<notin> group_key ` set cases" by (simp add: set_sorted_group_keys)
    then have e: "stratum k cases = []" by (auto simp: stratum_def filter_empty_conv)
    have "length (stratum k (fst (sample_groups rsample spg g ?gs))) = 0"
      unfolding length_stratum_map keys
      using count_blocks_absent[OF False, of "\<lambda>cs. min spg (length cs)"] by simp
    with e show ?thesis by simp
  qed
qed

lemma stratified_sorted:
  assumes "sample_contract rsample"
  shows "sorted (map group_key (fst (sample_groups rsample spg g (sorted_groups cases))))"
proof -
  let ?gs = "sorted_groups cases"
  have keys: "map group_key (fst (sample_groups rsample spg g ?gs)) =
           concat (map (\<lambda>(k, cs). replicate (min spg (length cs)) k) ?gs)"
  proof (rule sample_groups_keys[OF assms])
    fix k cs c assume "(k, cs) \<in> set ?gs" and "c \<in> set cs"
    then show "group_key c = k" using sorted_groups_strata[of k cs cases] by (simp add: stratum_def)
  qed
  have "sorted (map fst ?gs)" by (simp add: sorted_groups_def sorted_sort_key)
  from sorted_blocks[OF this, of "\<lambda>cs. min spg (length cs)"] show ?thesis unfolding keys .
qed

lemma sample_decomposition:
  assumes contract: "sample_contract rsample" and nonempty: "cases \<noteq> []"
  shows "\<exists>extra.
           fst (sample_balanced_cases rseed rsample cases n seed g0) =
             Inr (slice_to (fst (sample_groups rsample
                                   (nat (max 1 (n div int (length (group_cases cases)))))
                                   (rseed seed) (sorted_groups cases)) @ extra) n)
           \<and> set extra \<subseteq> set cases -
                 set (fst (sample_groups rsample
                             (nat (max 1 (n div int (length (group_cases cases)))))
                             (rseed seed) (sorted_groups cases)))"
proof -
  have ne: "length (group_cases cases) \<noteq> 0"
    using group_cases_nonempty[OF nonempty] by simp
  define spg where "spg = nat (max 1 (n div int (length (group_cases cases))))"
  obtain sampled g1 where sg:
    "sample_groups rsample spg (rseed seed) (sorted_groups cases) = (sampled, g1)"
    by (cases "sample_groups rsample spg (rseed seed) (sorted_groups cases)")
  define remaining where "remaining = filter (\<lambda>c. c \<notin> set sampled) cases"
  have goal: "\<exists>extra. fst (sample_balanced_cases rseed rsample cases n seed g0) =
                  Inr (slice_to (sampled @ extra) n) \<and> set extra \<subseteq> set cases - set sampled"
  proof (cases "int (length sampled) < n \<and> remaining \<noteq> []")
    case False
    then have "fst (sample_balanced_cases rseed rsample cases n seed g0) = Inr (slice_to (sampled @ []) n)"
      using ne sg
      by (auto simp: sample_balanced_cases_def Let_def spg_def[symmetric] remaining_def)
    moreover have "set ([]::test_case list) \<subseteq> set cases - set sampled" by simp
    ultimately show ?thesis by (intro exI[of _ "[]"] conjI)
  next
    case True
    define additional where "additional = min (nat (n - int (length sampled))) (length remaining)"
    obtain extra g2 where ex: "random_sample rsample g1 remaining additional = (extra, g2)"
      by (cases "random_sample rsample g1 remaining additional")
    have al: "additional \<le> length remaining" by (simp add: additional_def)
    have "mset extra \<subseteq># mset remaining"
      using random_sample_props(1)[OF contract al, of g1] ex by simp
    then have "set extra \<subseteq> set remaining" using set_mset_mono by fastforce
    then have sub: "set extra \<subseteq> set cases - set sampled" by (auto simp: remaining_def)
    have "fst (sample_balanced_cases rseed rsample cases n seed g0) = Inr (slice_to (sampled @ extra) n)"
      using ne sg True ex
      by (simp add: sample_balanced_cases_def Let_def spg_def[symmetric] remaining_def[symmetric]
          additional_def[symmetric])
    with sub show ?thesis by blast
  qed
  then show ?thesis using sg by (simp add: spg_def)
qed

text \<open>
  Claim C6. The result of the balanced sampler, and the generator state it leaves, do
  not depend on the generator state it is called in: two calls with the same corpus, bound
  and seed return the same list. The strata are visited in strictly increasing order of
  their keys, pairs of strings ordered lexicographically, and the keys visited are those
  of the corpus. When the library sampler keeps its contract and the corpus is not empty,
  the returned list is the cut to the bound of a stratified part followed by a top-up: the
  keys of the stratified part are in increasing order, it holds from every stratum as many
  test cases as the quota allows, it is drawn from the corpus without repeating a position,
  and the top-up is drawn from the test cases that are not in it.
\<close>

theorem sample_deterministic_sorted_strata:
  "sample_balanced_cases rseed rsample cases n seed g1
     = sample_balanced_cases rseed rsample cases n seed g2
   \<and> sorted_wrt (<) (map fst (sorted_groups cases))
   \<and> fst ` set (sorted_groups cases) = group_key ` set cases
   \<and> (sample_contract rsample \<and> cases \<noteq> [] \<longrightarrow>
        (\<exists>sampled extra.
           fst (sample_balanced_cases rseed rsample cases n seed g1)
             = Inr (slice_to (sampled @ extra) n)
           \<and> sorted (map group_key sampled)
           \<and> (\<forall>k. length (stratum k sampled) =
                     min (nat (max 1 (n div int (card (group_key ` set cases)))))
                         (length (stratum k cases)))
           \<and> mset sampled \<subseteq># mset cases
           \<and> set extra \<subseteq> set cases - set sampled))"
proof (intro conjI impI)
  show "sample_balanced_cases rseed rsample cases n seed g1
     = sample_balanced_cases rseed rsample cases n seed g2"
    by (simp add: sample_balanced_cases_def)
next
  show "sorted_wrt (<) (map fst (sorted_groups cases))" by (rule strata_strictly_sorted)
next
  show "fst ` set (sorted_groups cases) = group_key ` set cases" by (rule set_sorted_group_keys)
next
  assume h: "sample_contract rsample \<and> cases \<noteq> []"
  then have contract: "sample_contract rsample" and nonempty: "cases \<noteq> []" by simp_all
  define spg where "spg = nat (max 1 (n div int (card (group_key ` set cases))))"
  define sampled where
    "sampled = fst (sample_groups rsample spg (rseed seed) (sorted_groups cases))"
  from sample_decomposition[OF contract nonempty, of rseed n seed g1]
  obtain extra where
    r: "fst (sample_balanced_cases rseed rsample cases n seed g1) = Inr (slice_to (sampled @ extra) n)"
    and e: "set extra \<subseteq> set cases - set sampled"
    unfolding sampled_def spg_def length_group_cases by blast
  have s: "sorted (map group_key sampled)"
    unfolding sampled_def using contract by (rule stratified_sorted)
  have q: "\<forall>k. length (stratum k sampled) = min spg (length (stratum k cases))"
    unfolding sampled_def using stratified_quota[OF contract] by blast
  have m: "mset sampled \<subseteq># mset cases"
    unfolding sampled_def
    using sample_groups_subset[OF contract, of spg "rseed seed" "sorted_groups cases"]
    by (simp add: mset_sorted_groups)
  from r s q m e show "\<exists>sampled extra.
           fst (sample_balanced_cases rseed rsample cases n seed g1)
             = Inr (slice_to (sampled @ extra) n)
           \<and> sorted (map group_key sampled)
           \<and> (\<forall>k. length (stratum k sampled) =
                     min (nat (max 1 (n div int (card (group_key ` set cases)))))
                         (length (stratum k cases)))
           \<and> mset sampled \<subseteq># mset cases
           \<and> set extra \<subseteq> set cases - set sampled"
    unfolding spg_def by blast
qed

lemma sample_with_top_up:
  assumes "group_cases cases \<noteq> []"
      and "sample_groups rsample (nat (max 1 (n div int (length (group_cases cases))))) (rseed seed)
             (sorted_groups cases) = (sampled, after)"
      and "int (length sampled) < n"
      and "filter (\<lambda>c. c \<notin> set sampled) cases = remaining"
      and "remaining \<noteq> []"
      and "random_sample rsample after remaining
             (min (nat (n - int (length sampled))) (length remaining)) = (extra, final)"
  shows "fst (sample_balanced_cases rseed rsample cases n seed ambient) = Inr (slice_to (sampled @ extra) n)"
  using assms by (simp add: sample_balanced_cases_def Let_def)

lemma distinct_groups:
  "group_cases distinct_corpus =
     [((''syntax'', ''beginner''), [case_of Syntax Beginner ''a'', case_of Syntax Beginner ''b'']),
      ((''logical'', ''advanced''), [case_of Logical Advanced ''c''])]"
  by (simp add: group_cases_def distinct_corpus_def group_key_def case_of_def)

lemma distinct_sorted_groups:
  "sorted_groups distinct_corpus =
     [((''logical'', ''advanced''), [case_of Logical Advanced ''c'']),
      ((''syntax'', ''beginner''), [case_of Syntax Beginner ''a'', case_of Syntax Beginner ''b''])]"
  by (simp add: sorted_groups_def distinct_groups)

lemma distinct_sampled:
  "sample_groups first_positions (nat (max 1 (3 div int (length (group_cases distinct_corpus)))))
     (seed_counter 42) (sorted_groups distinct_corpus) =
     ([case_of Logical Advanced ''c'', case_of Syntax Beginner ''a''], Suc (Suc (seed_counter 42)))"
  by (simp add: distinct_groups distinct_sorted_groups random_sample_def first_positions_def)

lemma distinct_remaining:
  "filter (\<lambda>c. c \<notin> set [case_of Logical Advanced ''c'', case_of Syntax Beginner ''a''])
     distinct_corpus = [case_of Syntax Beginner ''b'']"
  by (simp add: distinct_corpus_def case_of_def str_def)

lemma distinct_result:
  "fst (sample_balanced_cases seed_counter first_positions distinct_corpus 3 42 0) =
     Inr [case_of Logical Advanced ''c'', case_of Syntax Beginner ''a'', case_of Syntax Beginner ''b'']"
proof -
  have ne: "group_cases distinct_corpus \<noteq> []" by (simp add: distinct_groups)
  have lt: "int (length [case_of Logical Advanced ''c'', case_of Syntax Beginner ''a'']) < 3" by simp
  have r: "[case_of Syntax Beginner ''b''] \<noteq> []" by simp
  have t: "random_sample first_positions (Suc (Suc (seed_counter 42))) [case_of Syntax Beginner ''b'']
             (min (nat (3 - int (length [case_of Logical Advanced ''c'', case_of Syntax Beginner ''a''])))
                  (length [case_of Syntax Beginner ''b''])) =
           ([case_of Syntax Beginner ''b''], Suc (Suc (Suc (seed_counter 42))))"
    by (simp add: random_sample_def first_positions_def)
  from sample_with_top_up[where rseed = seed_counter and seed = 42 and rsample = first_positions
        and cases = distinct_corpus and n = 3 and ambient = 0,
        OF ne distinct_sampled lt distinct_remaining r t]
  show ?thesis by (simp add: slice_to_def)
qed

theorem sample_deterministic_sorted_strata_witness:
  "sample_contract first_positions \<and> distinct_corpus \<noteq> []
   \<and> fst (sample_balanced_cases seed_counter first_positions distinct_corpus 3 42 0) =
       Inr [case_of Logical Advanced ''c'', case_of Syntax Beginner ''a'', case_of Syntax Beginner ''b'']
   \<and> (\<exists>sampled extra.
           fst (sample_balanced_cases seed_counter first_positions distinct_corpus 3 42 0)
             = Inr (slice_to (sampled @ extra) 3)
           \<and> sorted (map group_key sampled)
           \<and> (\<forall>k. length (stratum k sampled) =
                     min (nat (max 1 (3 div int (card (group_key ` set distinct_corpus)))))
                         (length (stratum k distinct_corpus)))
           \<and> mset sampled \<subseteq># mset distinct_corpus
           \<and> set extra \<subseteq> set distinct_corpus - set sampled)"
proof -
  have h: "sample_contract first_positions \<and> distinct_corpus \<noteq> []"
    using first_positions_contract distinct_corpus_props(1) by simp
  from sample_deterministic_sorted_strata[of seed_counter first_positions distinct_corpus 3 42 0 0] h
  have "\<exists>sampled extra.
           fst (sample_balanced_cases seed_counter first_positions distinct_corpus 3 42 0)
             = Inr (slice_to (sampled @ extra) 3)
           \<and> sorted (map group_key sampled)
           \<and> (\<forall>k. length (stratum k sampled) =
                     min (nat (max 1 (3 div int (card (group_key ` set distinct_corpus)))))
                         (length (stratum k distinct_corpus)))
           \<and> mset sampled \<subseteq># mset distinct_corpus
           \<and> set extra \<subseteq> set distinct_corpus - set sampled"
    by blast
  with h distinct_result show ?thesis by blast
qed

end
